theory Spec2Isabelle
  imports Complex_Main "HOL-Library.Multiset"
begin

section \<open>JavaScript numbers\<close>

text \<open>
  A JavaScript number is an IEEE double. The model keeps its special values and computes
  on the finite ones with reals; the sign of zero is not modelled (the one zero is read as
  \<open>+0\<close>). The operations of this section are exact. Rounding and the overflow of a
  finite result are added where the sign of a difference is at stake, in the cost
  functions, which round after each operation.
\<close>

datatype jsnum = NaN | NInf | Fin real | PInf

fun sign_of :: "jsnum \<Rightarrow> real" where
  "sign_of NaN = 0"
| "sign_of NInf = - 1"
| "sign_of (Fin x) = sgn x"
| "sign_of PInf = 1"

definition inf_of_sign :: "real \<Rightarrow> jsnum" where
  "inf_of_sign s = (if s = 0 then NaN else if 0 < s then PInf else NInf)"

instantiation jsnum :: "{zero, one, plus, uminus, minus, times, inverse, ord}"
begin

definition zero_jsnum :: jsnum where
  "zero_jsnum = Fin 0"

definition one_jsnum :: jsnum where
  "one_jsnum = Fin 1"

fun plus_jsnum :: "jsnum \<Rightarrow> jsnum \<Rightarrow> jsnum" where
  "plus_jsnum NaN b = NaN"
| "plus_jsnum a NaN = NaN"
| "plus_jsnum (Fin x) (Fin y) = Fin (x + y)"
| "plus_jsnum (Fin x) b = b"
| "plus_jsnum a (Fin y) = a"
| "plus_jsnum PInf PInf = PInf"
| "plus_jsnum NInf NInf = NInf"
| "plus_jsnum PInf NInf = NaN"
| "plus_jsnum NInf PInf = NaN"

fun uminus_jsnum :: "jsnum \<Rightarrow> jsnum" where
  "uminus_jsnum NaN = NaN"
| "uminus_jsnum NInf = PInf"
| "uminus_jsnum (Fin x) = Fin (- x)"
| "uminus_jsnum PInf = NInf"

definition minus_jsnum :: "jsnum \<Rightarrow> jsnum \<Rightarrow> jsnum" where
  "minus_jsnum a b = a + (- b)"

fun times_jsnum :: "jsnum \<Rightarrow> jsnum \<Rightarrow> jsnum" where
  "times_jsnum NaN b = NaN"
| "times_jsnum a NaN = NaN"
| "times_jsnum (Fin x) (Fin y) = Fin (x * y)"
| "times_jsnum a b = inf_of_sign (sign_of a * sign_of b)"

fun divide_jsnum :: "jsnum \<Rightarrow> jsnum \<Rightarrow> jsnum" where
  "divide_jsnum NaN b = NaN"
| "divide_jsnum a NaN = NaN"
| "divide_jsnum (Fin x) (Fin y) = (if y = 0 then inf_of_sign (sgn x) else Fin (x / y))"
| "divide_jsnum (Fin x) b = Fin 0"
| "divide_jsnum a (Fin y) = inf_of_sign (sign_of a * (if y < 0 then - 1 else 1))"
| "divide_jsnum a b = NaN"

definition inverse_jsnum :: "jsnum \<Rightarrow> jsnum" where
  "inverse_jsnum a = divide (Fin 1) a"

text \<open>The relational operators: every comparison with \<open>NaN\<close> is false.\<close>

fun less_jsnum :: "jsnum \<Rightarrow> jsnum \<Rightarrow> bool" where
  "less_jsnum NaN b = False"
| "less_jsnum a NaN = False"
| "less_jsnum (Fin x) (Fin y) = (x < y)"
| "less_jsnum a PInf = (a \<noteq> PInf)"
| "less_jsnum NInf b = (b \<noteq> NInf)"
| "less_jsnum a b = False"

fun less_eq_jsnum :: "jsnum \<Rightarrow> jsnum \<Rightarrow> bool" where
  "less_eq_jsnum NaN b = False"
| "less_eq_jsnum a NaN = False"
| "less_eq_jsnum (Fin x) (Fin y) = (x \<le> y)"
| "less_eq_jsnum a PInf = True"
| "less_eq_jsnum NInf b = True"
| "less_eq_jsnum a b = False"

instance ..

end

text \<open>Without rounding, addition is associative and commutative, also on the special
  values, so the order in which a sum is accumulated does not change it.\<close>

instance jsnum :: comm_monoid_add
proof (standard, goal_cases)
  case (1 x y z)
  show ?case by (cases x; cases y; cases z) simp_all
next
  case (2 x y)
  show ?case by (cases x; cases y) simp_all
next
  case (3 x)
  show ?case by (cases x) (simp_all add: zero_jsnum_def)
qed

text \<open>\<open>Math.floor\<close>, \<open>Math.min\<close> and \<open>Math.max\<close> (which return \<open>NaN\<close> when an
  argument is \<open>NaN\<close>), and the global \<open>isFinite\<close> on a number.\<close>

fun Math_floor :: "jsnum \<Rightarrow> jsnum" where
  "Math_floor (Fin x) = Fin (of_int \<lfloor>x\<rfloor>)"
| "Math_floor a = a"

definition Math_min :: "jsnum \<Rightarrow> jsnum \<Rightarrow> jsnum" where
  "Math_min a b = (if a = NaN \<or> b = NaN then NaN else if b < a then b else a)"

definition Math_max :: "jsnum \<Rightarrow> jsnum \<Rightarrow> jsnum" where
  "Math_max a b = (if a = NaN \<or> b = NaN then NaN else if a < b then b else a)"

fun isFinite :: "jsnum \<Rightarrow> bool" where
  "isFinite (Fin x) = True"
| "isFinite a = False"

section \<open>Values of record fields\<close>

text \<open>
  A numeric field of a record is a number, \<open>null\<close>, or \<open>undefined\<close> (the field is
  missing). \<open>present\<close> is the test \<open>v !== null && v !== undefined\<close>, \<open>ToNumber\<close> the
  conversion that arithmetic and comparison apply, \<open>truthy\<close> the test of \<open>||\<close> and \<open>!\<close>.
\<close>

datatype jsval = Undefined | Null | Num jsnum

definition present :: "jsval \<Rightarrow> bool" where
  "present v = (v \<noteq> Null \<and> v \<noteq> Undefined)"

fun ToNumber :: "jsval \<Rightarrow> jsnum" where
  "ToNumber Undefined = NaN"
| "ToNumber Null = Fin 0"
| "ToNumber (Num x) = x"

fun truthy :: "jsval \<Rightarrow> bool" where
  "truthy (Num x) = (x \<noteq> NaN \<and> x \<noteq> Fin 0)"
| "truthy v = False"

text \<open>\<open>a ?? b\<close> and \<open>a || b\<close>.\<close>

definition nullish :: "jsval \<Rightarrow> jsval \<Rightarrow> jsval" where
  "nullish a b = (if present a then a else b)"

definition or_else :: "jsval \<Rightarrow> jsval \<Rightarrow> jsval" where
  "or_else a b = (if truthy a then a else b)"

section \<open>The TSV record\<close>

text \<open>
  The fields of a TSV record that the work-unit, ENST, cost and policy functions read or
  write. The record is extensible: the functions copy every other field unchanged, as the
  object spread \<open>{ ...tsv }\<close> does. The three last fields are the JavaScript properties
  \<open>_policy_throttled\<close>, \<open>_throttle_factor\<close> and \<open>_migrate_flag\<close>; \<open>None\<close> is a
  property that is not set.
\<close>

record tsv =
  cpu_core_seconds :: jsval
  gpu_seconds :: jsval
  cpu_util :: jsval
  gpu_util :: jsval
  window_duration_s :: jsval
  validated_steps :: jsval
  timesteps :: jsval
  power_w :: jsval
  energy_j :: jsval
  thermal_headroom_w :: jsval
  grid_stress_index :: jsval
  work_units :: jsval
  work_units_mode :: "string option"
  validated_work_units :: jsval
  enst :: jsval
  meta_policy_throttled :: "bool option"
  meta_throttle_factor :: "jsnum option"
  meta_migrate_flag :: "bool option"

text \<open>The object \<open>{}\<close>: every field is missing.\<close>

definition empty_tsv :: tsv where
  "empty_tsv =
    \<lparr>cpu_core_seconds = Undefined, gpu_seconds = Undefined, cpu_util = Undefined,
     gpu_util = Undefined, window_duration_s = Undefined, validated_steps = Undefined,
     timesteps = Undefined, power_w = Undefined, energy_j = Undefined,
     thermal_headroom_w = Undefined, grid_stress_index = Undefined, work_units = Undefined,
     work_units_mode = None, validated_work_units = Undefined, enst = Undefined,
     meta_policy_throttled = None, meta_throttle_factor = None, meta_migrate_flag = None\<rparr>"

section \<open>Work units and ENST (src/enst_compute)\<close>

text \<open>The result \<open>{ value, mode }\<close> of the work-unit functions.\<close>

record work_units_result =
  wu_value :: jsval
  wu_mode :: string

definition computeWorkUnitsInfra :: "'a tsv_scheme \<Rightarrow> jsnum \<Rightarrow> jsnum" where
  "computeWorkUnitsInfra r gpuWeight =
    (let cpuCoreSeconds = nullish (cpu_core_seconds r)
           (Num (ToNumber (or_else (cpu_util r) (Num (Fin 0)))
                 * ToNumber (or_else (window_duration_s r) (Num (Fin 300))) * Fin 100));
         gpuSeconds = nullish (gpu_seconds r)
           (Num (ToNumber (or_else (gpu_util r) (Num (Fin 0)))
                 * ToNumber (or_else (window_duration_s r) (Num (Fin 300))) * Fin 8))
     in ToNumber cpuCoreSeconds + ToNumber gpuSeconds * gpuWeight)"

text \<open>\<open>computeWorkUnitsDomain\<close> calls \<open>computeWorkUnitsInfra(tsv)\<close> with the
  default \<open>gpuWeight = 1\<close>.\<close>

definition computeWorkUnitsDomain :: "'a tsv_scheme \<Rightarrow> work_units_result" where
  "computeWorkUnitsDomain r =
    (if validated_steps r \<noteq> Null \<and> validated_steps r \<noteq> Undefined
     then \<lparr>wu_value = validated_steps r, wu_mode = ''domain''\<rparr>
     else if timesteps r \<noteq> Null \<and> timesteps r \<noteq> Undefined
     then \<lparr>wu_value = timesteps r, wu_mode = ''domain''\<rparr>
     else \<lparr>wu_value = Num (computeWorkUnitsInfra r (Fin 1)), wu_mode = ''infra_fallback''\<rparr>)"

definition computeWorkUnits :: "'a tsv_scheme \<Rightarrow> string \<Rightarrow> jsnum \<Rightarrow> work_units_result" where
  "computeWorkUnits r mode gpuWeight =
    (if mode = ''domain'' then computeWorkUnitsDomain r
     else \<lparr>wu_value = Num (computeWorkUnitsInfra r gpuWeight), wu_mode = ''infra''\<rparr>)"

definition computeEnst :: "'a tsv_scheme \<Rightarrow> jsval" where
  "computeEnst r =
    (let energy = energy_j r; work = work_units r in
     if energy = Null \<or> energy = Undefined \<or> ToNumber energy \<le> Fin 0 then Null
     else if work = Null \<or> work = Undefined then Null
     else Num (ToNumber work / ToNumber energy))"

text \<open>
  The options of \<open>computeEnstStream\<close>, with the defaults of its destructuring
  (\<open>workUnitsMode = 'infra'\<close>, \<open>gpuWeight = 1\<close>), and the body of its loop.
\<close>

record enst_options =
  workUnitsMode :: "string option"
  gpuWeight :: "jsnum option"

definition computeEnstRecord :: "enst_options \<Rightarrow> 'a tsv_scheme \<Rightarrow> 'a tsv_scheme" where
  "computeEnstRecord opts r =
    (let res = computeWorkUnits r
                 (case workUnitsMode opts of None \<Rightarrow> ''infra'' | Some m \<Rightarrow> m)
                 (case gpuWeight opts of None \<Rightarrow> Fin 1 | Some w \<Rightarrow> w);
         r1 = r\<lparr>work_units := wu_value res, work_units_mode := Some (wu_mode res)\<rparr>;
         r2 = (if validated_work_units r1 = Null \<or> validated_work_units r1 = Undefined
               then r1\<lparr>validated_work_units := wu_value res\<rparr> else r1)
     in r2\<lparr>enst := computeEnst r2\<rparr>)"

text \<open>The generator yields one record for each input record, in order.\<close>

definition computeEnstStream :: "'a tsv_scheme list \<Rightarrow> enst_options \<Rightarrow> 'a tsv_scheme list" where
  "computeEnstStream tsvRecords opts = map (computeEnstRecord opts) tsvRecords"

section \<open>Rounding\<close>

text \<open>
  \<open>fl rnd\<close> is what an arithmetic operation does to its exact result: a finite result is
  rounded with \<open>rnd\<close>, a special value is left as it is. \<open>rnd\<close> maps a real to the number
  that stands for it, which may be an infinity (overflow). \<open>rounding rnd\<close> is what the
  proofs need of it: it is monotone, exact at 0, symmetric, and exact on its own results.
  \<open>Fin\<close> is the rounding of exact arithmetic.
\<close>

definition fl :: "(real \<Rightarrow> jsnum) \<Rightarrow> jsnum \<Rightarrow> jsnum" where
  "fl rnd a = (case a of Fin x \<Rightarrow> rnd x | _ \<Rightarrow> a)"

definition rounding :: "(real \<Rightarrow> jsnum) \<Rightarrow> bool" where
  "rounding rnd \<longleftrightarrow>
     (\<forall>x y. x \<le> y \<longrightarrow> rnd x \<le> rnd y)
     \<and> rnd 0 = Fin 0
     \<and> (\<forall>x. rnd (- x) = - rnd x)
     \<and> (\<forall>x y. rnd x = Fin y \<longrightarrow> rnd y = Fin y)"

text \<open>
  \<open>binary64\<close> is the rounding of JavaScript, IEEE 754 round to nearest, ties to even, in
  the double format. The exponent of \<open>x\<close> is that of the binade of \<open>\<bar>x\<bar>\<close>, and \<open>- 1022\<close>
  for the subnormal numbers; the doubles of that exponent are the multiples of the
  \<open>quantum\<close>, which is 52 binary places below; \<open>x\<close> is rounded to the nearest of these
  multiples, to the even one of two that are equally near; a result of magnitude
  \<open>2 ^ 1024\<close> or more is an infinity.
\<close>

definition nearest_even :: "real \<Rightarrow> int" where
  "nearest_even x =
    (let f = \<lfloor>x\<rfloor>; r = x - of_int f
     in if r < 1 / 2 then f else if 1 / 2 < r then f + 1 else if even f then f else f + 1)"

definition exponent_of :: "real \<Rightarrow> int" where
  "exponent_of x = max \<lfloor>log 2 \<bar>x\<bar>\<rfloor> (- 1022)"

definition quantum :: "real \<Rightarrow> real" where
  "quantum x = 2 powi (exponent_of x - 52)"

definition round_to_quantum :: "real \<Rightarrow> real" where
  "round_to_quantum x = of_int (nearest_even (x / quantum x)) * quantum x"

definition binary64 :: "real \<Rightarrow> jsnum" where
  "binary64 x =
    (if x = 0 then Fin 0
     else let y = round_to_quantum x
          in if 2 ^ 1024 \<le> \<bar>y\<bar> then inf_of_sign (sgn x) else Fin y)"

section \<open>Cost (src/cost)\<close>

text \<open>
  The claim about the cost delta is about the sign of a difference of two quotients, which
  rounding can change, so the cost functions round: each arithmetic operation is followed
  by \<open>fl rnd\<close>. With \<open>binary64\<close> for \<open>rnd\<close> they compute what the code computes, with
  \<open>Fin\<close> they compute in exact arithmetic. An argument may be any real; the doubles are
  among them.
\<close>

definition JOULES_PER_MWH :: jsnum where
  "JOULES_PER_MWH = Fin 3600000000"

definition REFERENCE_WORK_UNITS :: jsnum where
  "REFERENCE_WORK_UNITS = Fin 1000000000"

definition computeCostUsd :: "(real \<Rightarrow> jsnum) \<Rightarrow> jsval \<Rightarrow> jsnum \<Rightarrow> jsnum" where
  "computeCostUsd rnd energyJ priceUsdPerMwh =
    (if energyJ = Null \<or> energyJ = Undefined \<or> ToNumber energyJ \<le> Fin 0 then Fin 0
     else (let mwh = fl rnd (ToNumber energyJ / JOULES_PER_MWH)
           in fl rnd (mwh * priceUsdPerMwh)))"

definition computeEnergyForWork :: "(real \<Rightarrow> jsnum) \<Rightarrow> jsnum \<Rightarrow> jsval \<Rightarrow> jsnum" where
  "computeEnergyForWork rnd workUnits e =
    (if e = Null \<or> e = Undefined \<or> ToNumber e \<le> Fin 0 then PInf
     else fl rnd (workUnits / ToNumber e))"

definition computeCostForWork :: "(real \<Rightarrow> jsnum) \<Rightarrow> jsnum \<Rightarrow> jsval \<Rightarrow> jsnum \<Rightarrow> jsnum" where
  "computeCostForWork rnd workUnits e priceUsdPerMwh =
    (let energyJ = computeEnergyForWork rnd workUnits e in
     if \<not> isFinite energyJ then PInf
     else computeCostUsd rnd (Num energyJ) priceUsdPerMwh)"

text \<open>A caller that leaves \<open>referenceWorkUnits\<close> out passes \<open>REFERENCE_WORK_UNITS\<close>.\<close>

definition computeDeltaCostPerWork ::
  "(real \<Rightarrow> jsnum) \<Rightarrow> jsval \<Rightarrow> jsval \<Rightarrow> jsnum \<Rightarrow> jsnum \<Rightarrow> jsval" where
  "computeDeltaCostPerWork rnd enstBaseline enstPolicy priceUsdPerMwh referenceWorkUnits =
    (let costBaseline = computeCostForWork rnd referenceWorkUnits enstBaseline priceUsdPerMwh;
         costPolicy = computeCostForWork rnd referenceWorkUnits enstPolicy priceUsdPerMwh
     in if \<not> isFinite costBaseline \<or> \<not> isFinite costPolicy then Null
        else Num (fl rnd (costPolicy - costBaseline)))"

section \<open>Policy evaluation (src/policy)\<close>

text \<open>
  A policy, a violation \<open>{ type, actual, cap }\<close> and an evaluation result. The policy's
  field \<open>throttle_factor\<close> is \<open>policy_throttle_factor\<close> here, to keep it apart from the
  result's field of the same name.
\<close>

record policy =
  energy_cap_w :: jsval
  thermal_cap_w :: jsval
  grid_stress_cap :: jsval
  policy_throttle_factor :: jsval

record violation =
  violation_type :: string
  actual :: jsval
  cap :: jsval

record evaluation =
  throttle_applied :: bool
  throttle_factor :: jsnum
  migrate_flag :: bool
  violations :: "violation list"

definition evaluatePolicy :: "'a tsv_scheme \<Rightarrow> policy \<Rightarrow> evaluation" where
  "evaluatePolicy r p =
    (let result0 = \<lparr>throttle_applied = False, throttle_factor = Fin 1,
                     migrate_flag = False, violations = []\<rparr>;
         result1 =
           (if energy_cap_w p \<noteq> Null \<and> power_w r \<noteq> Null
               \<and> ToNumber (power_w r) > ToNumber (energy_cap_w p)
            then result0\<lparr>throttle_applied := True,
                   throttle_factor :=
                     Math_min (throttle_factor result0) (ToNumber (policy_throttle_factor p)),
                   violations := violations result0 @
                     [\<lparr>violation_type = ''energy_cap'', actual = power_w r,
                       cap = energy_cap_w p\<rparr>]\<rparr>
            else result0);
         result2 =
           (if thermal_cap_w p \<noteq> Null \<and> thermal_headroom_w r \<noteq> Null
               \<and> ToNumber (thermal_headroom_w r) < ToNumber (thermal_cap_w p)
            then result1\<lparr>throttle_applied := True,
                   throttle_factor :=
                     Math_min (throttle_factor result1) (ToNumber (policy_throttle_factor p)),
                   violations := violations result1 @
                     [\<lparr>violation_type = ''thermal_cap'', actual = thermal_headroom_w r,
                       cap = thermal_cap_w p\<rparr>]\<rparr>
            else result1)
     in if grid_stress_cap p \<noteq> Null \<and> grid_stress_index r \<noteq> Null
           \<and> ToNumber (grid_stress_index r) > ToNumber (grid_stress_cap p)
        then result2\<lparr>migrate_flag := True,
               violations := violations result2 @
                 [\<lparr>violation_type = ''grid_stress'', actual = grid_stress_index r,
                   cap = grid_stress_cap p\<rparr>]\<rparr>
        else result2)"

text \<open>Multiplying a field that is present by the throttle factor.\<close>

definition scale_present :: "jsval \<Rightarrow> jsnum \<Rightarrow> jsval" where
  "scale_present v k = (if v \<noteq> Null \<and> v \<noteq> Undefined then Num (ToNumber v * k) else v)"

definition applyThrottle :: "'a tsv_scheme \<Rightarrow> evaluation \<Rightarrow> 'a tsv_scheme" where
  "applyThrottle r evalResult =
    (if \<not> throttle_applied evalResult then r
     else
       let factor = throttle_factor evalResult;
           t1 = r\<lparr>work_units := scale_present (work_units r) factor,
                  validated_work_units := scale_present (validated_work_units r) factor,
                  cpu_core_seconds := scale_present (cpu_core_seconds r) factor,
                  gpu_seconds := scale_present (gpu_seconds r) factor,
                  energy_j := scale_present (energy_j r) (Fin (1 / 2) + factor * Fin (1 / 2))\<rparr>;
           t2 = (if ToNumber (energy_j t1) > Fin 0 \<and> work_units t1 \<noteq> Null
                 then t1\<lparr>enst := Num (ToNumber (work_units t1) / ToNumber (energy_j t1))\<rparr>
                 else t1)
       in t2\<lparr>meta_policy_throttled := Some True,
              meta_throttle_factor := Some factor,
              meta_migrate_flag := Some (migrate_flag evalResult)\<rparr>)"

section \<open>Raw telemetry and the window map\<close>

text \<open>
  A measurement field of a raw telemetry record, as the aggregators observe it. They test
  it with \<open>??\<close> and \<open>!== null\<close>, which do not tell \<open>null\<close> from a missing field
  (\<open>Absent\<close>), and convert it with \<open>Number\<close>, \<open>isNaN\<close> or arithmetic. A value that
  is not a number (a string, a boolean, an object) is \<open>Other n\<close>, where \<open>n\<close> is the number
  it converts to: the string \<open>"0.5"\<close> is \<open>Other (Fin (1/2))\<close> and the string \<open>"n/a"\<close>
  is \<open>Other NaN\<close>.
\<close>

datatype reading = Absent | Numeric jsnum | Other jsnum

text \<open>\<open>a ?? b\<close> on readings; \<open>Number(v)\<close> and \<open>isNaN(v)\<close>, where \<open>Absent\<close> is
  \<open>null\<close>; and \<open>or_zero v\<close>, the number that \<open>(v || 0)\<close> is as a factor of a product
  (the falsy values that are not numbers, the empty string and \<open>false\<close>, convert
  to 0, as the \<open>0\<close> that replaces them does).\<close>

definition coalesce :: "reading \<Rightarrow> reading \<Rightarrow> reading" where
  "coalesce a b = (if a = Absent then b else a)"

fun js_Number :: "reading \<Rightarrow> jsnum" where
  "js_Number Absent = Fin 0"
| "js_Number (Numeric x) = x"
| "js_Number (Other n) = n"

definition isNaN :: "reading \<Rightarrow> bool" where
  "isNaN v = (js_Number v = NaN)"

fun or_zero :: "reading \<Rightarrow> jsnum" where
  "or_zero Absent = Fin 0"
| "or_zero (Numeric x) = (if x = NaN \<or> x = Fin 0 then Fin 0 else x)"
| "or_zero (Other n) = n"

text \<open>
  The aggregators keep their windows in a \<open>Map\<close> from the key
  \<open>`${siteId}:${windowStart}`\<close> to the window, which iterates in insertion order. The
  model keeps the pair of the site and the window start as the key (two pairs give the
  same string exactly when they are equal) and the map as an association list in
  insertion order: \<open>Map_has\<close>, \<open>Map_get\<close>, and \<open>Map_set\<close>, which replaces the value of a
  key where it stands and appends a new key. An aggregator object is its
  \<open>windowSizeUs\<close> (a finite number) and its \<open>windows\<close>. Timestamps are finite numbers
  and sites are strings.
\<close>

type_synonym window_key = "string \<times> jsnum"

definition Map_has :: "('k \<times> 'v) list \<Rightarrow> 'k \<Rightarrow> bool" where
  "Map_has m k = (k \<in> set (map fst m))"

definition Map_get :: "('k \<times> 'v) list \<Rightarrow> 'k \<Rightarrow> 'v option" where
  "Map_get m k = map_of m k"

fun Map_set :: "('k \<times> 'v) list \<Rightarrow> 'k \<Rightarrow> 'v \<Rightarrow> ('k \<times> 'v) list" where
  "Map_set [] k v = [(k, v)]"
| "Map_set (p # ps) k v = (if fst p = k then (k, v) # ps else p # Map_set ps k v)"

record 'w aggregator =
  windowSizeUs :: real
  windows :: "(window_key \<times> 'w) list"

definition new_aggregator :: "real \<Rightarrow> 'w aggregator" where
  "new_aggregator w = \<lparr>windowSizeUs = w, windows = []\<rparr>"

definition windowStart_of :: "'w aggregator \<Rightarrow> real \<Rightarrow> jsnum" where
  "windowStart_of agg timestamp =
     Math_floor (Fin timestamp / Fin (windowSizeUs agg)) * Fin (windowSizeUs agg)"

definition getWindowKey :: "'w aggregator \<Rightarrow> real \<Rightarrow> string \<Rightarrow> window_key" where
  "getWindowKey agg timestamp siteId = (siteId, windowStart_of agg timestamp)"

text \<open>The fields every window and every emitted record has.\<close>

record window_base =
  ts_start :: jsnum
  ts_end :: jsnum
  site_id :: string

section \<open>PowerAggregator (src/ingest_powerdata)\<close>

text \<open>
  A raw power record: the timestamp under \<open>ts\<close>, \<open>timestamp\<close>, \<open>time\<close> or \<open>t\<close> (a finite
  number, or \<open>None\<close> when the field is \<open>null\<close> or missing), the site under \<open>site_id\<close>,
  \<open>machine_id\<close> or \<open>node_id\<close> (a string), and the power under \<open>power_w\<close>, \<open>power\<close>,
  \<open>watts\<close>, \<open>watt\<close>, \<open>power_watts\<close> or \<open>pdu_power\<close>. The fields carry the prefix
  \<open>pr_\<close>.
\<close>

record power_record =
  pr_ts :: "real option"
  pr_timestamp :: "real option"
  pr_time :: "real option"
  pr_t :: "real option"
  pr_site_id :: "string option"
  pr_machine_id :: "string option"
  pr_node_id :: "string option"
  pr_power_w :: reading
  pr_power :: reading
  pr_watts :: reading
  pr_watt :: reading
  pr_power_watts :: reading
  pr_pdu_power :: reading

definition empty_power_record :: power_record where
  "empty_power_record =
    \<lparr>pr_ts = None, pr_timestamp = None, pr_time = None, pr_t = None, pr_site_id = None,
     pr_machine_id = None, pr_node_id = None, pr_power_w = Absent, pr_power = Absent,
     pr_watts = Absent, pr_watt = Absent, pr_power_watts = Absent, pr_pdu_power = Absent\<rparr>"

text \<open>A sample \<open>{ ts, power }\<close> of a window, the window, and the record \<open>emit\<close> yields
  (its own fields carry the prefix \<open>e_\<close>).\<close>

record power_sample =
  sample_ts :: real
  sample_power :: jsnum

record power_window = window_base +
  power_samples :: "power_sample list"
  last_ts :: jsnum

record emitted_base = window_base +
  e_ts :: jsnum

record power_emitted = emitted_base +
  e_power_w :: jsnum
  e_energy_j_window :: jsnum
  e_sample_count :: nat

definition normalizeTimestamp :: "real \<Rightarrow> real" where
  "normalizeTimestamp timestamp =
    (if timestamp < 10000000000 then timestamp * 1000000
     else if timestamp < 10000000000000 then timestamp * 1000
     else timestamp)"

text \<open>The timestamp of the record as it is given, its site and its power value: the
  chains of \<open>??\<close> over the field names.\<close>

definition power_record_ts :: "power_record \<Rightarrow> real" where
  "power_record_ts r =
    (case pr_ts r of Some v \<Rightarrow> v | None \<Rightarrow>
     (case pr_timestamp r of Some v \<Rightarrow> v | None \<Rightarrow>
      (case pr_time r of Some v \<Rightarrow> v | None \<Rightarrow>
       (case pr_t r of Some v \<Rightarrow> v | None \<Rightarrow> 0))))"

definition power_record_site :: "power_record \<Rightarrow> string" where
  "power_record_site r =
    (case pr_site_id r of Some v \<Rightarrow> v | None \<Rightarrow>
     (case pr_machine_id r of Some v \<Rightarrow> v | None \<Rightarrow>
      (case pr_node_id r of Some v \<Rightarrow> v | None \<Rightarrow> ''unknown'')))"

definition power_record_powerW :: "power_record \<Rightarrow> reading" where
  "power_record_powerW r =
    coalesce (pr_power_w r) (coalesce (pr_power r) (coalesce (pr_watts r)
      (coalesce (pr_watt r) (coalesce (pr_power_watts r) (pr_pdu_power r)))))"

definition addPowerRecord :: "power_window aggregator \<Rightarrow> power_record \<Rightarrow> power_window aggregator" where
  "addPowerRecord agg r =
    (let timestamp = normalizeTimestamp (power_record_ts r);
         siteId = power_record_site r;
         k = getWindowKey agg timestamp siteId;
         windowStart = windowStart_of agg timestamp;
         ws = (if \<not> Map_has (windows agg) k
               then Map_set (windows agg) k
                      \<lparr>ts_start = windowStart, ts_end = windowStart + Fin (windowSizeUs agg),
                       site_id = siteId, power_samples = [], last_ts = windowStart\<rparr>
               else windows agg);
         powerW = power_record_powerW r
     in case Map_get ws k of
          None \<Rightarrow> agg\<lparr>windows := ws\<rparr>
        | Some window \<Rightarrow>
            if powerW \<noteq> Absent \<and> \<not> isNaN powerW
            then agg\<lparr>windows := Map_set ws k
                   (window\<lparr>power_samples := power_samples window @
                              [\<lparr>sample_ts = timestamp, sample_power = js_Number powerW\<rparr>],
                           last_ts := Math_max (last_ts window) (Fin timestamp)\<rparr>)\<rparr>
            else agg\<lparr>windows := ws\<rparr>)"

text \<open>
  \<open>computeEnergy\<close>. \<open>samples.sort((a, b) => a.ts - b.ts)\<close> is a stable sort by the
  timestamp, as \<open>sort_key\<close> is; the \<open>for\<close> loop over \<open>i = 1, ..., length - 1\<close> is a fold
  over these indices.
\<close>

definition energy_step :: "power_sample list \<Rightarrow> jsnum \<Rightarrow> nat \<Rightarrow> jsnum" where
  "energy_step samples energyJ i =
    (let dt = Fin ((sample_ts (samples ! i) - sample_ts (samples ! (i - 1))) / 1000000);
         avgPower = (sample_power (samples ! i) + sample_power (samples ! (i - 1))) / Fin 2
     in energyJ + avgPower * dt)"

definition computeEnergy :: "'w aggregator \<Rightarrow> power_sample list \<Rightarrow> jsnum" where
  "computeEnergy agg samples =
    (if length samples < 2
     then (if length samples = 1
           then (let windowDurationS = Fin (windowSizeUs agg / 1000000)
                 in sample_power (samples ! 0) * windowDurationS)
           else Fin 0)
     else (let sorted_samples = sort_key sample_ts samples
           in foldl (energy_step sorted_samples) (Fin 0) [1..<length sorted_samples]))"

definition emit_power_window :: "power_window aggregator \<Rightarrow> power_window \<Rightarrow> power_emitted" where
  "emit_power_window agg window =
    (let meanPower =
           (if length (power_samples window) > 0
            then foldl (\<lambda>acc s. acc + sample_power s) (Fin 0) (power_samples window)
                   / Fin (real (length (power_samples window)))
            else Fin 0);
         energyJ = computeEnergy agg (power_samples window)
     in \<lparr>ts_start = ts_start window, ts_end = ts_end window, site_id = site_id window,
         e_ts = ts_start window, e_power_w = meanPower, e_energy_j_window = energyJ,
         e_sample_count = length (power_samples window)\<rparr>)"

text \<open>\<open>emit\<close> yields one record for each window, in the order of the map.\<close>

definition emit_power :: "power_window aggregator \<Rightarrow> power_emitted list" where
  "emit_power agg = map (\<lambda>(k, window). emit_power_window agg window) (windows agg)"

section \<open>UsageAggregator (src/ingest_google_clusterdata)\<close>

text \<open>
  A raw usage record, its fields under the prefix \<open>ur_\<close>: the timestamps
  \<open>start_time\<close>, \<open>time\<close>, \<open>ts\<close> and \<open>end_time\<close>, the site under \<open>machine_id\<close> or
  \<open>site_id\<close>, the object \<open>average_usage\<close> with its \<open>cpus\<close> and \<open>memory\<close>, the
  utilisation fields, and whether \<open>type\<close> and \<open>event_type\<close> are defined.
\<close>

record average_usage =
  cpus :: reading
  memory :: reading

record usage_record =
  ur_start_time :: "real option"
  ur_time :: "real option"
  ur_ts :: "real option"
  ur_end_time :: "real option"
  ur_machine_id :: "string option"
  ur_site_id :: "string option"
  ur_average_usage :: "average_usage option"
  ur_cpu_util :: reading
  ur_assigned_memory :: reading
  ur_mem_util :: reading
  ur_gpu_util :: reading
  ur_type_defined :: bool
  ur_event_type_defined :: bool

definition empty_usage_record :: usage_record where
  "empty_usage_record =
    \<lparr>ur_start_time = None, ur_time = None, ur_ts = None, ur_end_time = None,
     ur_machine_id = None, ur_site_id = None, ur_average_usage = None, ur_cpu_util = Absent,
     ur_assigned_memory = Absent, ur_mem_util = Absent, ur_gpu_util = Absent,
     ur_type_defined = False, ur_event_type_defined = False\<rparr>"

record usage_window = window_base +
  cpu_samples :: "jsnum list"
  gpu_samples :: "jsnum list"
  mem_samples :: "jsnum list"
  job_count :: nat
  resource_seconds :: jsnum

record usage_emitted = emitted_base +
  e_cpu_util :: jsnum
  e_gpu_util :: jsval
  e_mem_util :: jsval
  e_job_queue_depth :: nat
  e_resource_seconds_window :: jsnum

text \<open>\<open>a || d\<close> on a timestamp (0 and a missing field are falsy) and on a site (the
  empty string and a missing field are falsy).\<close>

fun ts_or :: "real option \<Rightarrow> real \<Rightarrow> real" where
  "ts_or (Some v) d = (if v \<noteq> 0 then v else d)"
| "ts_or None d = d"

fun site_or :: "string option \<Rightarrow> string \<Rightarrow> string" where
  "site_or (Some v) d = (if v \<noteq> [] then v else d)"
| "site_or None d = d"

definition usage_record_ts :: "usage_record \<Rightarrow> real" where
  "usage_record_ts r = ts_or (ur_start_time r) (ts_or (ur_time r) (ts_or (ur_ts r) 0))"

definition usage_record_site :: "usage_record \<Rightarrow> string" where
  "usage_record_site r = site_or (ur_machine_id r) (site_or (ur_site_id r) ''unknown'')"

definition usage_record_cpuUtil :: "usage_record \<Rightarrow> reading" where
  "usage_record_cpuUtil r =
    coalesce (case ur_average_usage r of None \<Rightarrow> Absent | Some a \<Rightarrow> cpus a)
      (coalesce (ur_cpu_util r) (ur_assigned_memory r))"

definition usage_record_memUtil :: "usage_record \<Rightarrow> reading" where
  "usage_record_memUtil r =
    coalesce (case ur_average_usage r of None \<Rightarrow> Absent | Some a \<Rightarrow> memory a) (ur_mem_util r)"

definition push_reading :: "jsnum list \<Rightarrow> reading \<Rightarrow> jsnum list" where
  "push_reading samples v = (if v \<noteq> Absent then samples @ [js_Number v] else samples)"

definition addUsageRecord :: "usage_window aggregator \<Rightarrow> usage_record \<Rightarrow> usage_window aggregator" where
  "addUsageRecord agg r =
    (let timestamp = usage_record_ts r;
         siteId = usage_record_site r;
         k = getWindowKey agg timestamp siteId;
         windowStart = windowStart_of agg timestamp;
         ws = (if \<not> Map_has (windows agg) k
               then Map_set (windows agg) k
                      \<lparr>ts_start = windowStart, ts_end = windowStart + Fin (windowSizeUs agg),
                       site_id = siteId, cpu_samples = [], gpu_samples = [], mem_samples = [],
                       job_count = 0, resource_seconds = Fin 0\<rparr>
               else windows agg);
         cpuUtil = usage_record_cpuUtil r;
         memUtil = usage_record_memUtil r;
         gpuUtil = ur_gpu_util r;
         duration = ts_or (ur_end_time r) (timestamp + 1000000) - timestamp;
         durationSec = Fin (duration / 1000000)
     in case Map_get ws k of
          None \<Rightarrow> agg\<lparr>windows := ws\<rparr>
        | Some window \<Rightarrow>
            agg\<lparr>windows := Map_set ws k
              (window\<lparr>cpu_samples := push_reading (cpu_samples window) cpuUtil,
                      mem_samples := push_reading (mem_samples window) memUtil,
                      gpu_samples := push_reading (gpu_samples window) gpuUtil,
                      job_count := (if ur_type_defined r \<or> ur_event_type_defined r
                                    then job_count window + 1 else job_count window),
                      resource_seconds := resource_seconds window + or_zero cpuUtil * durationSec\<rparr>)\<rparr>)"

text \<open>The mean \<open>samples.reduce((a, b) => a + b, 0) / samples.length\<close> and the clamp
  \<open>Math.min(1, Math.max(0, x))\<close>.\<close>

definition mean_samples :: "jsnum list \<Rightarrow> jsnum" where
  "mean_samples samples = foldl (\<lambda>a b. a + b) (Fin 0) samples / Fin (real (length samples))"

definition clamp01 :: "jsnum \<Rightarrow> jsnum" where
  "clamp01 x = Math_min (Fin 1) (Math_max (Fin 0) x)"

definition emit_usage_window :: "usage_window \<Rightarrow> usage_emitted" where
  "emit_usage_window window =
    (let cpuUtil = (if length (cpu_samples window) > 0 then mean_samples (cpu_samples window)
                    else Fin 0);
         gpuUtil = (if length (gpu_samples window) > 0
                    then Num (mean_samples (gpu_samples window)) else Null);
         memUtil = (if length (mem_samples window) > 0
                    then Num (mean_samples (mem_samples window)) else Null)
     in \<lparr>ts_start = ts_start window, ts_end = ts_end window, site_id = site_id window,
         e_ts = ts_start window,
         e_cpu_util = clamp01 cpuUtil,
         e_gpu_util = (if gpuUtil \<noteq> Null then Num (clamp01 (ToNumber gpuUtil)) else Null),
         e_mem_util = (if memUtil \<noteq> Null then Num (clamp01 (ToNumber memUtil)) else Null),
         e_job_queue_depth = job_count window,
         e_resource_seconds_window = resource_seconds window\<rparr>)"

definition emit_usage :: "usage_window aggregator \<Rightarrow> usage_emitted list" where
  "emit_usage agg = map (\<lambda>(k, window). emit_usage_window window) (windows agg)"

text \<open>Feeding a list of records to a fresh aggregator, one after the other, and emitting.\<close>

definition feed_power :: "real \<Rightarrow> power_record list \<Rightarrow> power_emitted list" where
  "feed_power w rs = emit_power (foldl addPowerRecord (new_aggregator w) rs)"

definition feed_usage :: "real \<Rightarrow> usage_record list \<Rightarrow> usage_emitted list" where
  "feed_usage w rs = emit_usage (foldl addUsageRecord (new_aggregator w) rs)"

section \<open>Notions of the specification\<close>

text \<open>
  The trapezoidal sum of the specification over a list of samples: the sum over the
  consecutive pairs of \<open>avg(p[i-1], p[i]) * (t[i] - t[i-1])\<close>, the time difference
  converted from microseconds to seconds.
\<close>

definition trapezoid_sum :: "power_sample list \<Rightarrow> jsnum" where
  "trapezoid_sum ss =
    (\<Sum>i\<leftarrow>[1..<length ss].
       ((sample_power (ss ! (i - 1)) + sample_power (ss ! i)) / Fin 2)
         * Fin ((sample_ts (ss ! i) - sample_ts (ss ! (i - 1))) / 1000000))"

text \<open>
  A power record whose power value is kept (\<open>powerW !== null && !isNaN(powerW)\<close>), and
  the condition under which a window's energy does not depend on the order of arrival:
  the kept records of one site that share a timestamp carry the same power.
\<close>

definition power_valid :: "power_record \<Rightarrow> bool" where
  "power_valid r = (power_record_powerW r \<noteq> Absent \<and> \<not> isNaN (power_record_powerW r))"


section \<open>The aggregators as folds over the window map\<close>

text \<open>
  One step of an aggregator on the map: the window of the record's key, a fresh one if the
  key is new, is replaced by its update. \<open>run\<close> is a sequence of such steps from the
  empty map, and \<open>window_after\<close> the window a key then has: the updates of the records
  of that key, in their order, applied to the fresh window.
\<close>

definition upsert :: "('k \<Rightarrow> 'w) \<Rightarrow> ('w \<Rightarrow> 'w) \<Rightarrow> 'k \<Rightarrow> ('k \<times> 'w) list \<Rightarrow> ('k \<times> 'w) list" where
  "upsert init f k m = Map_set m k (f (case map_of m k of None \<Rightarrow> init k | Some w \<Rightarrow> w))"



text \<open>The key, the fresh window and the update of a power record, and the sample it
  pushes.\<close>

definition power_sample_of :: "power_record \<Rightarrow> power_sample" where
  "power_sample_of r = \<lparr>sample_ts = normalizeTimestamp (power_record_ts r),
                         sample_power = js_Number (power_record_powerW r)\<rparr>"

definition power_key :: "real \<Rightarrow> power_record \<Rightarrow> window_key" where
  "power_key w r = getWindowKey (new_aggregator w :: power_window aggregator)
                     (normalizeTimestamp (power_record_ts r)) (power_record_site r)"

definition power_init :: "real \<Rightarrow> window_key \<Rightarrow> power_window" where
  "power_init w k = \<lparr>ts_start = snd k, ts_end = snd k + Fin w, site_id = fst k,
                      power_samples = [], last_ts = snd k\<rparr>"

definition power_step :: "power_record \<Rightarrow> power_window \<Rightarrow> power_window" where
  "power_step r window =
    (if power_valid r
     then window\<lparr>power_samples := power_samples window @ [power_sample_of r],
                 last_ts := Math_max (last_ts window) (Fin (normalizeTimestamp (power_record_ts r)))\<rparr>
     else window)"

text \<open>The same for a usage record; \<open>usage_seconds\<close> is what it adds to
  \<open>resource_seconds\<close>, and \<open>pushed\<close> the samples a list of readings leaves.\<close>

definition usage_key :: "real \<Rightarrow> usage_record \<Rightarrow> window_key" where
  "usage_key w r = getWindowKey (new_aggregator w :: usage_window aggregator)
                     (usage_record_ts r) (usage_record_site r)"

definition usage_init :: "real \<Rightarrow> window_key \<Rightarrow> usage_window" where
  "usage_init w k = \<lparr>ts_start = snd k, ts_end = snd k + Fin w, site_id = fst k,
                      cpu_samples = [], gpu_samples = [], mem_samples = [],
                      job_count = 0, resource_seconds = Fin 0\<rparr>"

definition usage_seconds :: "usage_record \<Rightarrow> jsnum" where
  "usage_seconds r =
     or_zero (usage_record_cpuUtil r)
       * Fin ((ts_or (ur_end_time r) (usage_record_ts r + 1000000) - usage_record_ts r) / 1000000)"

definition usage_step :: "usage_record \<Rightarrow> usage_window \<Rightarrow> usage_window" where
  "usage_step r window =
     window\<lparr>cpu_samples := push_reading (cpu_samples window) (usage_record_cpuUtil r),
            mem_samples := push_reading (mem_samples window) (usage_record_memUtil r),
            gpu_samples := push_reading (gpu_samples window) (ur_gpu_util r),
            job_count := (if ur_type_defined r \<or> ur_event_type_defined r
                          then job_count window + 1 else job_count window),
            resource_seconds := resource_seconds window + usage_seconds r\<rparr>"


section \<open>Facts about JavaScript numbers\<close>

lemma jsnum_le_not_gt: "(a::jsnum) \<le> b \<Longrightarrow> \<not> b < a"
  by (cases a; cases b) simp_all

lemma jsnum_NaN_right [simp]:
  "a + NaN = NaN" "a * NaN = NaN" "a / NaN = NaN" "\<not> a < NaN" "\<not> a \<le> NaN"
  by (cases a; simp)+

lemma jsnum_mult_commute: "(a::jsnum) * b = b * a"
  by (cases a; cases b) (simp_all add: mult.commute)

lemma isFinite_iff: "isFinite a \<longleftrightarrow> (\<exists>x. a = Fin x)"
  by (cases a) simp_all

section \<open>ENST of a record\<close>

text \<open>
  Where \<open>energy_j\<close> is absent or can be compared with 0, \<open>computeEnst\<close> does what is
  asked of it: it returns \<open>work_units / energy_j\<close> when \<open>energy_j\<close> is present and
  greater than 0 and \<open>work_units\<close> is present (also when it is zero), and \<open>null\<close> when
  \<open>energy_j\<close> is absent or at most 0 or \<open>work_units\<close> is absent.
\<close>

lemma computeEnst_cases:
  "(present (energy_j r) \<and> Fin 0 < ToNumber (energy_j r) \<and> present (work_units r)
      \<longrightarrow> computeEnst r = Num (ToNumber (work_units r) / ToNumber (energy_j r)))
   \<and> (\<not> present (energy_j r) \<or> ToNumber (energy_j r) \<le> Fin 0 \<or> \<not> present (work_units r)
      \<longrightarrow> computeEnst r = Null)"
  by (auto simp: computeEnst_def present_def Let_def dest: jsnum_le_not_gt)

text \<open>
  C1 fails on the code. The claim has \<open>computeEnst\<close> return the quotient if and only if
  \<open>energy_j\<close> is present and greater than 0 and \<open>work_units\<close> is present, and \<open>null\<close>
  in every other case. In the record \<open>{energy_j: NaN, work_units: 1}\<close> the energy is not
  greater than 0; but the guard is \<open>energy <= 0\<close>, which is false for \<open>NaN\<close> as well,
  so \<open>computeEnst\<close> divides by it and returns the quotient \<open>NaN\<close>, not \<open>null\<close>.
\<close>

theorem computeEnst_NaN_energy:
  "\<not> Fin 0 < ToNumber (energy_j (empty_tsv\<lparr>energy_j := Num NaN, work_units := Num (Fin 1)\<rparr>))
   \<and> computeEnst (empty_tsv\<lparr>energy_j := Num NaN, work_units := Num (Fin 1)\<rparr>) = Num NaN
   \<and> computeEnst (empty_tsv\<lparr>energy_j := Num NaN, work_units := Num (Fin 1)\<rparr>) \<noteq> Null"
  by (simp add: computeEnst_def)

text \<open>The other computations of ENST test \<open>energy_j > 0\<close>, which \<open>NaN\<close> fails:
  \<open>applyThrottle\<close>, recomputing the ENST of the same record, leaves \<open>enst\<close> unset.\<close>

lemma applyThrottle_NaN_energy:
  "enst (applyThrottle (empty_tsv\<lparr>energy_j := Num NaN, work_units := Num (Fin 1)\<rparr>)
      \<lparr>throttle_applied = True, throttle_factor = Fin 1, migrate_flag = False, violations = []\<rparr>)
     = Undefined"
  by (simp add: applyThrottle_def Let_def scale_present_def empty_tsv_def)

section \<open>Work units in domain mode\<close>

text \<open>
  C3 (as amended). \<open>computeWorkUnitsDomain\<close> returns the mode \<open>domain\<close> with the value of
  \<open>validated_steps\<close> whenever that field is present (also when it is 0), the mode \<open>domain\<close>
  with the value of \<open>timesteps\<close> when \<open>validated_steps\<close> is absent and \<open>timesteps\<close> is
  present, and the mode \<open>infra_fallback\<close> only when both are absent; the value is then
  the output of \<open>computeWorkUnitsInfra\<close> for the same record.
\<close>

theorem computeWorkUnitsDomain_modes:
  "(present (validated_steps r) \<longrightarrow>
      computeWorkUnitsDomain r = \<lparr>wu_value = validated_steps r, wu_mode = ''domain''\<rparr>)
   \<and> (\<not> present (validated_steps r) \<and> present (timesteps r) \<longrightarrow>
      computeWorkUnitsDomain r = \<lparr>wu_value = timesteps r, wu_mode = ''domain''\<rparr>)
   \<and> (\<not> present (validated_steps r) \<and> \<not> present (timesteps r) \<longrightarrow>
      computeWorkUnitsDomain r =
        \<lparr>wu_value = Num (computeWorkUnitsInfra r (Fin 1)), wu_mode = ''infra_fallback''\<rparr>)"
  by (auto simp: computeWorkUnitsDomain_def present_def)

text \<open>The three cases at \<open>{validated_steps: 0}\<close>, \<open>{timesteps: 4000}\<close> and
  \<open>{cpu_core_seconds: 1000, gpu_seconds: 500}\<close>.\<close>

theorem computeWorkUnitsDomain_modes_witness:
  "computeWorkUnitsDomain (empty_tsv\<lparr>validated_steps := Num (Fin 0)\<rparr>)
     = \<lparr>wu_value = Num (Fin 0), wu_mode = ''domain''\<rparr>
   \<and> computeWorkUnitsDomain (empty_tsv\<lparr>timesteps := Num (Fin 4000)\<rparr>)
     = \<lparr>wu_value = Num (Fin 4000), wu_mode = ''domain''\<rparr>
   \<and> computeWorkUnitsDomain (empty_tsv\<lparr>cpu_core_seconds := Num (Fin 1000), gpu_seconds := Num (Fin 500)\<rparr>)
     = \<lparr>wu_value = Num (Fin 1500), wu_mode = ''infra_fallback''\<rparr>"
  using computeWorkUnitsDomain_modes [of "empty_tsv\<lparr>validated_steps := Num (Fin 0)\<rparr>"]
    computeWorkUnitsDomain_modes [of "empty_tsv\<lparr>timesteps := Num (Fin 4000)\<rparr>"]
    computeWorkUnitsDomain_modes [of "empty_tsv\<lparr>cpu_core_seconds := Num (Fin 1000), gpu_seconds := Num (Fin 500)\<rparr>"]
  by (simp add: present_def empty_tsv_def computeWorkUnitsInfra_def nullish_def)

text \<open>
  C3 as stated fails at \<open>{timesteps: 4000}\<close>: \<open>validated_steps\<close> is absent and the mode
  is \<open>domain\<close>, not \<open>infra_fallback\<close>.
\<close>

theorem computeWorkUnitsDomain_timesteps_counterexample:
  "\<not> present (validated_steps (empty_tsv\<lparr>timesteps := Num (Fin 4000)\<rparr>))
   \<and> wu_mode (computeWorkUnitsDomain (empty_tsv\<lparr>timesteps := Num (Fin 4000)\<rparr>)) = ''domain''
   \<and> wu_mode (computeWorkUnitsDomain (empty_tsv\<lparr>timesteps := Num (Fin 4000)\<rparr>)) \<noteq> ''infra_fallback''"
  by (simp add: computeWorkUnitsDomain_def present_def empty_tsv_def)

section \<open>The ENST stream\<close>

text \<open>
  C10. \<open>computeEnstStream\<close> yields one record for each input record, in order. The
  \<open>work_units\<close> of the yielded record is the value \<open>computeWorkUnits\<close> returns for the
  input record under the options; its \<open>validated_work_units\<close> is that freshly computed
  \<open>work_units\<close> whenever the input's \<open>validated_work_units\<close> is \<open>null\<close> or \<open>undefined\<close>,
  and the input's \<open>validated_work_units\<close> otherwise.
\<close>

theorem computeEnstStream_validated_work_units:
  "length (computeEnstStream rs opts) = length rs
   \<and> (\<forall>i < length rs.
        work_units (computeEnstStream rs opts ! i)
          = wu_value (computeWorkUnits (rs ! i)
              (case workUnitsMode opts of None \<Rightarrow> ''infra'' | Some m \<Rightarrow> m)
              (case gpuWeight opts of None \<Rightarrow> Fin 1 | Some w \<Rightarrow> w))
        \<and> (\<not> present (validated_work_units (rs ! i)) \<longrightarrow>
              validated_work_units (computeEnstStream rs opts ! i)
                = work_units (computeEnstStream rs opts ! i))
        \<and> (present (validated_work_units (rs ! i)) \<longrightarrow>
              validated_work_units (computeEnstStream rs opts ! i)
                = validated_work_units (rs ! i)))"
  by (auto simp: computeEnstStream_def computeEnstRecord_def Let_def present_def)

text \<open>Two records in the default infrastructure mode, \<open>{cpu_core_seconds: 1000,
  gpu_seconds: 500}\<close> without and with \<open>validated_work_units: 7\<close>: the first gets the
  computed 1500, the second keeps its 7.\<close>

theorem computeEnstStream_validated_work_units_witness:
  "map validated_work_units
     (computeEnstStream
        [empty_tsv\<lparr>cpu_core_seconds := Num (Fin 1000), gpu_seconds := Num (Fin 500)\<rparr>,
         empty_tsv\<lparr>cpu_core_seconds := Num (Fin 1000), gpu_seconds := Num (Fin 500),
                    validated_work_units := Num (Fin 7)\<rparr>]
        \<lparr>workUnitsMode = None, gpuWeight = None\<rparr>)
   = [Num (Fin 1500), Num (Fin 7)]"
proof -
  let ?rs = "[empty_tsv\<lparr>cpu_core_seconds := Num (Fin 1000), gpu_seconds := Num (Fin 500)\<rparr>,
         empty_tsv\<lparr>cpu_core_seconds := Num (Fin 1000), gpu_seconds := Num (Fin 500),
                    validated_work_units := Num (Fin 7)\<rparr>]"
  let ?opts = "\<lparr>workUnitsMode = None, gpuWeight = None\<rparr>"
  note t = computeEnstStream_validated_work_units [of ?rs ?opts]
  from t have len: "length (computeEnstStream ?rs ?opts) = 2" by simp
  from t have a: "validated_work_units (computeEnstStream ?rs ?opts ! 0) = Num (Fin 1500)"
    by (simp add: present_def empty_tsv_def computeWorkUnits_def computeWorkUnitsInfra_def nullish_def)
  from t have b: "validated_work_units (computeEnstStream ?rs ?opts ! 1) = Num (Fin 7)"
    by (simp add: present_def empty_tsv_def)
  from len a b show ?thesis
    by (simp add: list_eq_iff_nth_eq less_Suc_eq numeral_2_eq_2)
qed

section \<open>Policy evaluation and throttling\<close>

lemma not_gt_when_within:
  assumes "present c \<and> present v \<longrightarrow> ToNumber v \<le> ToNumber c"
  shows "\<not> (c \<noteq> Null \<and> v \<noteq> Null \<and> ToNumber c < ToNumber v)"
  using assms by (cases c; cases v) (auto simp: present_def dest: jsnum_le_not_gt)

lemma not_lt_when_within:
  assumes "present c \<and> present v \<longrightarrow> ToNumber c \<le> ToNumber v"
  shows "\<not> (c \<noteq> Null \<and> v \<noteq> Null \<and> ToNumber v < ToNumber c)"
  using assms by (cases c; cases v) (auto simp: present_def dest: jsnum_le_not_gt)

text \<open>
  C7. With \<open>energy_cap_w\<close> configured, a record whose \<open>power_w\<close> exceeds it makes
  \<open>evaluatePolicy\<close> set \<open>throttle_applied\<close> and list a violation of type \<open>energy_cap\<close>
  (with the power and the cap). A record within all configured caps (its power at most
  the energy cap, its thermal headroom at least the thermal cap, its grid stress at most
  the grid-stress cap, for each cap that is configured and each of these fields that
  the record has) gets an empty list of violations and \<open>throttle_applied = false\<close>.
\<close>

theorem evaluatePolicy_energy_cap:
  "(present (energy_cap_w p) \<and> present (power_w r)
      \<and> ToNumber (power_w r) > ToNumber (energy_cap_w p) \<longrightarrow>
        throttle_applied (evaluatePolicy r p)
        \<and> \<lparr>violation_type = ''energy_cap'', actual = power_w r, cap = energy_cap_w p\<rparr>
             \<in> set (violations (evaluatePolicy r p)))
   \<and> ((present (energy_cap_w p) \<and> present (power_w r)
          \<longrightarrow> ToNumber (power_w r) \<le> ToNumber (energy_cap_w p))
      \<and> (present (thermal_cap_w p) \<and> present (thermal_headroom_w r)
          \<longrightarrow> ToNumber (thermal_cap_w p) \<le> ToNumber (thermal_headroom_w r))
      \<and> (present (grid_stress_cap p) \<and> present (grid_stress_index r)
          \<longrightarrow> ToNumber (grid_stress_index r) \<le> ToNumber (grid_stress_cap p))
      \<longrightarrow> violations (evaluatePolicy r p) = [] \<and> \<not> throttle_applied (evaluatePolicy r p))"
proof (intro conjI impI)
  assume over: "present (energy_cap_w p) \<and> present (power_w r)
      \<and> ToNumber (power_w r) > ToNumber (energy_cap_w p)"
  then show "throttle_applied (evaluatePolicy r p)"
    by (simp add: evaluatePolicy_def Let_def present_def)
  from over show "\<lparr>violation_type = ''energy_cap'', actual = power_w r, cap = energy_cap_w p\<rparr>
             \<in> set (violations (evaluatePolicy r p))"
    by (simp add: evaluatePolicy_def Let_def present_def)
next
  assume within: "(present (energy_cap_w p) \<and> present (power_w r)
          \<longrightarrow> ToNumber (power_w r) \<le> ToNumber (energy_cap_w p))
      \<and> (present (thermal_cap_w p) \<and> present (thermal_headroom_w r)
          \<longrightarrow> ToNumber (thermal_cap_w p) \<le> ToNumber (thermal_headroom_w r))
      \<and> (present (grid_stress_cap p) \<and> present (grid_stress_index r)
          \<longrightarrow> ToNumber (grid_stress_index r) \<le> ToNumber (grid_stress_cap p))"
  have e: "\<not> (energy_cap_w p \<noteq> Null \<and> power_w r \<noteq> Null
              \<and> ToNumber (energy_cap_w p) < ToNumber (power_w r))"
    using within not_gt_when_within by blast
  have t: "\<not> (thermal_cap_w p \<noteq> Null \<and> thermal_headroom_w r \<noteq> Null
              \<and> ToNumber (thermal_headroom_w r) < ToNumber (thermal_cap_w p))"
    using within not_lt_when_within by blast
  have g: "\<not> (grid_stress_cap p \<noteq> Null \<and> grid_stress_index r \<noteq> Null
              \<and> ToNumber (grid_stress_cap p) < ToNumber (grid_stress_index r))"
    using within not_gt_when_within by blast
  show "violations (evaluatePolicy r p) = []"
    using e t g by (simp add: evaluatePolicy_def Let_def)
  show "\<not> throttle_applied (evaluatePolicy r p)"
    using e t g by (simp add: evaluatePolicy_def Let_def)
qed

text \<open>The two cases at the inputs of the repository's tests: power 3500 over the cap 3000,
  and a record within the three caps.\<close>

theorem evaluatePolicy_energy_cap_witness:
  "throttle_applied (evaluatePolicy (empty_tsv\<lparr>power_w := Num (Fin 3500)\<rparr>)
      \<lparr>energy_cap_w = Num (Fin 3000), thermal_cap_w = Undefined, grid_stress_cap = Undefined,
        policy_throttle_factor = Num (Fin (1/2))\<rparr>)
   \<and> violations (evaluatePolicy
        (empty_tsv\<lparr>power_w := Num (Fin 2000), thermal_headroom_w := Num (Fin 15000),
                   grid_stress_index := Num (Fin (1/5))\<rparr>)
        \<lparr>energy_cap_w = Num (Fin 3000), thermal_cap_w = Num (Fin 10000),
          grid_stress_cap = Num (Fin (4/5)), policy_throttle_factor = Undefined\<rparr>) = []
   \<and> \<not> throttle_applied (evaluatePolicy
        (empty_tsv\<lparr>power_w := Num (Fin 2000), thermal_headroom_w := Num (Fin 15000),
                   grid_stress_index := Num (Fin (1/5))\<rparr>)
        \<lparr>energy_cap_w = Num (Fin 3000), thermal_cap_w = Num (Fin 10000),
          grid_stress_cap = Num (Fin (4/5)), policy_throttle_factor = Undefined\<rparr>)"
  using evaluatePolicy_energy_cap [of
      "\<lparr>energy_cap_w = Num (Fin 3000), thermal_cap_w = Undefined, grid_stress_cap = Undefined,
        policy_throttle_factor = Num (Fin (1/2))\<rparr>" "empty_tsv\<lparr>power_w := Num (Fin 3500)\<rparr>"]
    evaluatePolicy_energy_cap [of
      "\<lparr>energy_cap_w = Num (Fin 3000), thermal_cap_w = Num (Fin 10000),
          grid_stress_cap = Num (Fin (4/5)), policy_throttle_factor = Undefined\<rparr>"
      "empty_tsv\<lparr>power_w := Num (Fin 2000), thermal_headroom_w := Num (Fin 15000),
                   grid_stress_index := Num (Fin (1/5))\<rparr>"]
  by (simp add: present_def)

lemma half_scale_bound:
  assumes "Fin 0 \<le> f" "f \<le> Fin 1" "Fin 0 \<le> e"
  shows "Fin (1 / 2) * e \<le> e * (Fin (1 / 2) + Fin (1 / 2) * f)"
proof -
  from assms obtain x where f: "f = Fin x" "0 \<le> x" "x \<le> 1"
    by (cases f) auto
  have pos: "0 < 1 / 2 + 1 / 2 * x" using f by simp
  show ?thesis
  proof (cases e)
    case (Fin y)
    with assms have "0 \<le> y" by simp
    then have "1 / 2 * y \<le> y * (1 / 2 + 1 / 2 * x)"
      using f by (simp add: algebra_simps)
    then show ?thesis using Fin f by simp
  next
    case PInf
    then show ?thesis using f pos by (simp add: inf_of_sign_def)
  qed (use assms in auto)
qed

text \<open>
  C8 (as amended). For a record with \<open>work_units\<close> and \<open>energy_j\<close> present and an
  evaluation result with \<open>throttle_applied\<close> true and throttle factor \<open>f\<close>,
  \<open>applyThrottle\<close> returns a record whose \<open>work_units\<close> is the original times \<open>f\<close> and
  whose \<open>energy_j\<close> is the original times \<open>0.5 + 0.5 f\<close>; for \<open>f\<close> in \<open>[0,1]\<close> and an
  original energy that is not negative, the throttled energy is at least 50% of the
  original.
\<close>

theorem applyThrottle_scaling:
  "throttle_applied ev \<and> present (work_units r) \<and> present (energy_j r) \<longrightarrow>
     work_units (applyThrottle r ev) = Num (ToNumber (work_units r) * throttle_factor ev)
     \<and> energy_j (applyThrottle r ev)
         = Num (ToNumber (energy_j r) * (Fin (1 / 2) + Fin (1 / 2) * throttle_factor ev))
     \<and> (Fin 0 \<le> throttle_factor ev \<and> throttle_factor ev \<le> Fin 1 \<and> Fin 0 \<le> ToNumber (energy_j r)
          \<longrightarrow> Fin (1 / 2) * ToNumber (energy_j r) \<le> ToNumber (energy_j (applyThrottle r ev)))"
proof (intro impI, elim conjE)
  assume a: "throttle_applied ev" "present (work_units r)" "present (energy_j r)"
  have w: "work_units (applyThrottle r ev) = Num (ToNumber (work_units r) * throttle_factor ev)"
    using a by (simp add: applyThrottle_def Let_def scale_present_def present_def)
  have e: "energy_j (applyThrottle r ev)
         = Num (ToNumber (energy_j r) * (Fin (1 / 2) + Fin (1 / 2) * throttle_factor ev))"
    using a by (simp add: applyThrottle_def Let_def scale_present_def present_def
        jsnum_mult_commute [of "throttle_factor ev"])
  show "work_units (applyThrottle r ev) = Num (ToNumber (work_units r) * throttle_factor ev)
     \<and> energy_j (applyThrottle r ev)
         = Num (ToNumber (energy_j r) * (Fin (1 / 2) + Fin (1 / 2) * throttle_factor ev))
     \<and> (Fin 0 \<le> throttle_factor ev \<and> throttle_factor ev \<le> Fin 1 \<and> Fin 0 \<le> ToNumber (energy_j r)
          \<longrightarrow> Fin (1 / 2) * ToNumber (energy_j r) \<le> ToNumber (energy_j (applyThrottle r ev)))"
    using w e half_scale_bound by simp
qed

text \<open>The input of the repository's test: \<open>{work_units: 1000, energy_j: 5000}\<close> throttled
  by 0.5 has \<open>work_units\<close> 500 and \<open>energy_j\<close> 3750.\<close>

theorem applyThrottle_scaling_witness:
  "work_units (applyThrottle (empty_tsv\<lparr>work_units := Num (Fin 1000), energy_j := Num (Fin 5000)\<rparr>)
      \<lparr>throttle_applied = True, throttle_factor = Fin (1 / 2), migrate_flag = False, violations = []\<rparr>)
     = Num (Fin 500)
   \<and> energy_j (applyThrottle (empty_tsv\<lparr>work_units := Num (Fin 1000), energy_j := Num (Fin 5000)\<rparr>)
      \<lparr>throttle_applied = True, throttle_factor = Fin (1 / 2), migrate_flag = False, violations = []\<rparr>)
     = Num (Fin 3750)"
  using applyThrottle_scaling [of
      "\<lparr>throttle_applied = True, throttle_factor = Fin (1 / 2), migrate_flag = False, violations = []\<rparr>"
      "empty_tsv\<lparr>work_units := Num (Fin 1000), energy_j := Num (Fin 5000)\<rparr>"]
  by (simp add: present_def)

text \<open>
  C8 as stated fails for a negative energy: \<open>{work_units: 100, energy_j: -10}\<close> throttled
  with \<open>f = 1\<close> keeps \<open>energy_j = -10\<close>, which is below 50% of the original, \<open>-5\<close>.
\<close>

theorem applyThrottle_negative_energy_counterexample:
  "ToNumber (energy_j (applyThrottle (empty_tsv\<lparr>work_units := Num (Fin 100), energy_j := Num (Fin (- 10))\<rparr>)
      \<lparr>throttle_applied = True, throttle_factor = Fin 1, migrate_flag = False, violations = []\<rparr>))
    < Fin (1 / 2) * ToNumber (energy_j (empty_tsv\<lparr>work_units := Num (Fin 100), energy_j := Num (Fin (- 10))\<rparr>))"
  by (simp add: applyThrottle_def Let_def scale_present_def)

section \<open>The cost of the reference work under a rounding\<close>

text \<open>Exact arithmetic is a rounding; what follows of \<open>rounding\<close>: the rounding of a
  number between two that are results of \<open>rnd\<close> is finite and lies between them.\<close>

lemma rounding_Fin: "rounding Fin"
  by (simp add: rounding_def)

lemma rounding_mono: "rounding rnd \<Longrightarrow> x \<le> y \<Longrightarrow> rnd x \<le> rnd y"
  by (simp add: rounding_def)

lemma rounding_zero: "rounding rnd \<Longrightarrow> rnd 0 = Fin 0"
  by (simp add: rounding_def)

lemma rounding_exact: "rounding rnd \<Longrightarrow> rnd x = Fin y \<Longrightarrow> rnd y = Fin y"
  unfolding rounding_def by blast

lemma rounding_neg_exact: "rounding rnd \<Longrightarrow> rnd y = Fin y \<Longrightarrow> rnd (- y) = Fin (- y)"
  by (simp add: rounding_def)

lemma rounding_nonneg:
  assumes "rounding rnd" "0 \<le> x"
  shows "rnd x = PInf \<or> (\<exists>y. rnd x = Fin y \<and> 0 \<le> y)"
proof -
  have "Fin 0 \<le> rnd x"
    using rounding_mono [OF assms] rounding_zero [OF assms(1)] by simp
  then show ?thesis by (cases "rnd x") auto
qed

lemma rounding_nonpos:
  assumes "rounding rnd" "x \<le> 0"
  shows "rnd x = NInf \<or> (\<exists>y. rnd x = Fin y \<and> y \<le> 0)"
proof -
  have "rnd x \<le> Fin 0"
    using rounding_mono [OF assms] rounding_zero [OF assms(1)] by simp
  then show ?thesis by (cases "rnd x") auto
qed

lemma rounding_between:
  assumes r: "rounding rnd" and lo: "rnd lo = Fin lo" and hi: "rnd hi = Fin hi"
    and x: "lo \<le> x" "x \<le> hi"
  shows "\<exists>d. rnd x = Fin d \<and> lo \<le> d \<and> d \<le> hi"
proof -
  have "Fin lo \<le> rnd x" "rnd x \<le> Fin hi"
    using rounding_mono [OF r x(1)] rounding_mono [OF r x(2)] lo hi by simp_all
  then show ?thesis by (cases "rnd x") auto
qed

text \<open>The cost of an energy: it grows with the energy when the price is positive, and a
  finite cost is a result of \<open>rnd\<close> that has the sign of the price or is 0.\<close>

lemma fl_Fin: "fl rnd (Fin x) = rnd x"
  by (simp add: fl_def)

lemma computeCostUsd_pos:
  "0 < x \<Longrightarrow> computeCostUsd rnd (Num (Fin x)) price = fl rnd (rnd (x / 3600000000) * price)"
  by (simp add: computeCostUsd_def JOULES_PER_MWH_def fl_Fin Let_def not_le)

lemma jsnum_le_PInf: "a \<noteq> NaN \<Longrightarrow> a \<le> PInf"
  by (cases a) simp_all

lemma fl_scale_mono:
  assumes r: "rounding rnd" and p: "0 < p" and m: "Fin 0 \<le> m1" "m1 \<le> m2"
  shows "fl rnd (m1 * Fin p) \<le> fl rnd (m2 * Fin p) \<and> Fin 0 \<le> fl rnd (m1 * Fin p)"
proof (cases m1)
  case (Fin a)
  with m have a: "0 \<le> a" by simp
  have pos: "Fin 0 \<le> rnd (a * p)"
    using rounding_mono [OF r, of 0 "a * p"] rounding_zero [OF r] a p by simp
  show ?thesis
  proof (cases m2)
    case (Fin b)
    with m \<open>m1 = Fin a\<close> have "a \<le> b" by simp
    then have "a * p \<le> b * p" using p by simp
    then show ?thesis
      using rounding_mono [OF r] pos \<open>m1 = Fin a\<close> Fin by (simp add: fl_def)
  next
    case PInf
    have "rnd (a * p) \<le> PInf"
      using pos by (intro jsnum_le_PInf) auto
    then show ?thesis
      using pos p \<open>m1 = Fin a\<close> PInf by (simp add: fl_def inf_of_sign_def)
  qed (use m \<open>m1 = Fin a\<close> in auto)
next
  case PInf
  with m have "m2 = PInf" by (cases m2) auto
  with PInf p show ?thesis by (simp add: fl_def inf_of_sign_def)
qed (use m in auto)

lemma computeCostUsd_mono:
  assumes r: "rounding rnd" and p: "0 < p" and ab: "\<alpha> \<le> \<beta>"
  shows "computeCostUsd rnd (Num (Fin \<alpha>)) (Fin p) \<le> computeCostUsd rnd (Num (Fin \<beta>)) (Fin p)
       \<and> Fin 0 \<le> computeCostUsd rnd (Num (Fin \<alpha>)) (Fin p)"
proof -
  have mwh: "Fin 0 \<le> rnd (x / 3600000000)" if "0 \<le> x" for x
    using rounding_mono [OF r, of 0 "x / 3600000000"] rounding_zero [OF r] that by simp
  have nonneg: "Fin 0 \<le> computeCostUsd rnd (Num (Fin x)) (Fin p)" for x
  proof (cases "x \<le> 0")
    case True
    then show ?thesis by (simp add: computeCostUsd_def)
  next
    case False
    then have "Fin 0 \<le> rnd (x / 3600000000)" using mwh by simp
    moreover have "rnd (x / 3600000000) \<le> rnd (x / 3600000000)"
      by (rule rounding_mono [OF r]) simp
    ultimately have "Fin 0 \<le> fl rnd (rnd (x / 3600000000) * Fin p)"
      using fl_scale_mono [OF r p] by blast
    then show ?thesis using False by (simp add: computeCostUsd_pos)
  qed
  show ?thesis
  proof (cases "\<alpha> \<le> 0")
    case True
    then show ?thesis using nonneg [of \<beta>] by (simp add: computeCostUsd_def)
  next
    case False
    then have pos: "0 < \<alpha>" "0 < \<beta>" using ab by simp_all
    have "\<alpha> / 3600000000 \<le> \<beta> / 3600000000" using ab by simp
    then have le: "rnd (\<alpha> / 3600000000) \<le> rnd (\<beta> / 3600000000)"
      by (rule rounding_mono [OF r])
    have "Fin 0 \<le> rnd (\<alpha> / 3600000000)" using mwh pos by simp
    from fl_scale_mono [OF r p this le] pos nonneg [of \<alpha>]
    show ?thesis
      by (simp add: computeCostUsd_pos)
  qed
qed

lemma computeCostUsd_exact:
  assumes r: "rounding rnd" and c: "computeCostUsd rnd (Num (Fin x)) price = Fin a"
  shows "rnd a = Fin a
    \<and> (a = 0 \<or> (\<exists>p. price = Fin p \<and> 0 < p \<and> 0 \<le> a) \<or> (\<exists>p. price = Fin p \<and> p < 0 \<and> a \<le> 0))"
proof (cases "x \<le> 0")
  case True
  with c have "a = 0" by (simp add: computeCostUsd_def)
  then show ?thesis using rounding_zero [OF r] by simp
next
  case False
  then have c': "fl rnd (rnd (x / 3600000000) * price) = Fin a"
    using c by (simp add: computeCostUsd_pos)
  from False have "0 \<le> x / 3600000000" by simp
  from rounding_nonneg [OF r this] show ?thesis
  proof (elim disjE exE conjE)
    assume "rnd (x / 3600000000) = PInf"
    with c' show ?thesis
      by (cases price) (auto simp: fl_def inf_of_sign_def split: if_splits)
  next
    fix m assume m: "rnd (x / 3600000000) = Fin m" "0 \<le> m"
    show ?thesis
    proof (cases price)
      case (Fin p)
      with c' m have a: "rnd (m * p) = Fin a" by (simp add: fl_Fin)
      then have ex: "rnd a = Fin a" by (rule rounding_exact [OF r])
      consider "p = 0" | "0 < p" | "p < 0" by linarith
      then show ?thesis
      proof cases
        case 1
        with a rounding_zero [OF r] have "a = 0" by simp
        with ex show ?thesis by simp
      next
        case 2
        then have "0 \<le> m * p" using m by simp
        from rounding_nonneg [OF r this] a have "0 \<le> a" by auto
        with ex 2 Fin show ?thesis by simp
      next
        case 3
        then have "m * p \<le> 0" using m by (simp add: mult_le_0_iff)
        from rounding_nonpos [OF r this] a have "a \<le> 0" by auto
        with ex 3 Fin show ?thesis by simp
      qed
    qed (use c' m in \<open>auto simp: fl_def inf_of_sign_def split: if_splits\<close>)
  qed
qed

text \<open>The cost of the work: a finite one is a result of \<open>rnd\<close> with the sign of the price
  or 0, so the difference of two finite costs at one price cannot overflow; the cost is
  infinite at an absent or non-positive ENST, and falls as the ENST grows.\<close>

lemma computeCostForWork_exact:
  assumes r: "rounding rnd" and c: "computeCostForWork rnd w e price = Fin a"
  shows "rnd a = Fin a
    \<and> (a = 0 \<or> (\<exists>p. price = Fin p \<and> 0 < p \<and> 0 \<le> a) \<or> (\<exists>p. price = Fin p \<and> p < 0 \<and> a \<le> 0))"
proof -
  from c obtain x where "computeCostUsd rnd (Num (Fin x)) price = Fin a"
    by (auto simp: computeCostForWork_def Let_def isFinite_iff split: if_splits)
  then show ?thesis by (rule computeCostUsd_exact [OF r])
qed

lemma delta_finite:
  assumes r: "rounding rnd"
    and a: "computeCostForWork rnd w e1 price = Fin a"
    and b: "computeCostForWork rnd w e2 price = Fin b"
  shows "\<exists>d. rnd (a - b) = Fin d"
proof -
  note ea = computeCostForWork_exact [OF r a] and eb = computeCostForWork_exact [OF r b]
  have na: "rnd (- a) = Fin (- a)" and nb: "rnd (- b) = Fin (- b)"
    using ea eb rounding_neg_exact [OF r] by simp_all
  have "(0 \<le> a \<and> 0 \<le> b) \<or> (a \<le> 0 \<and> b \<le> 0)"
    using ea eb by auto
  then show ?thesis
  proof
    assume "0 \<le> a \<and> 0 \<le> b"
    then have "- b \<le> a - b" "a - b \<le> a" by simp_all
    from rounding_between [OF r nb _ this] ea show ?thesis by blast
  next
    assume "a \<le> 0 \<and> b \<le> 0"
    then have "a \<le> a - b" "a - b \<le> - b" by simp_all
    from rounding_between [OF r _ nb this] ea show ?thesis by blast
  qed
qed

lemma computeCostForWork_unbounded:
  "\<not> present e \<or> ToNumber e \<le> Fin 0 \<Longrightarrow> computeCostForWork rnd w e pr = PInf"
  by (auto simp: computeCostForWork_def computeEnergyForWork_def present_def)

lemma computeCostForWork_pos:
  assumes "0 < x"
  shows "computeCostForWork rnd (Fin w) (Num (Fin x)) price =
    (case rnd (w / x) of Fin \<alpha> \<Rightarrow> computeCostUsd rnd (Num (Fin \<alpha>)) price | _ \<Rightarrow> PInf)"
  using assms
  by (cases "rnd (w / x)")
    (simp_all add: computeCostForWork_def computeEnergyForWork_def fl_Fin Let_def not_le)

lemma computeCostForWork_PInf:
  "rounding rnd \<Longrightarrow> computeCostForWork rnd (Fin w) (Num PInf) price = Fin 0"
  by (simp add: computeCostForWork_def computeEnergyForWork_def computeCostUsd_def fl_Fin
      rounding_zero)

lemma computeCostForWork_mono:
  assumes r: "rounding rnd" and p: "0 < p" and w: "0 < w" and x: "0 < x"
    and q: "q = PInf \<or> (\<exists>y. q = Fin y \<and> x < y)"
  shows "computeCostForWork rnd (Fin w) (Num (Fin x)) (Fin p) = PInf
    \<or> (Fin 0 \<le> computeCostForWork rnd (Fin w) (Num q) (Fin p)
       \<and> computeCostForWork rnd (Fin w) (Num q) (Fin p)
           \<le> computeCostForWork rnd (Fin w) (Num (Fin x)) (Fin p))"
proof -
  have cx: "0 \<le> w / x" using w x by simp
  from rounding_nonneg [OF r cx] show ?thesis
  proof (elim disjE exE conjE)
    assume "rnd (w / x) = PInf"
    then show ?thesis using x by (simp add: computeCostForWork_pos)
  next
    fix \<beta> assume b: "rnd (w / x) = Fin \<beta>" "0 \<le> \<beta>"
    then have cb: "computeCostForWork rnd (Fin w) (Num (Fin x)) (Fin p)
        = computeCostUsd rnd (Num (Fin \<beta>)) (Fin p)"
      using x by (simp add: computeCostForWork_pos)
    have "\<exists>\<alpha>. \<alpha> \<le> \<beta> \<and> computeCostForWork rnd (Fin w) (Num q) (Fin p)
        = computeCostUsd rnd (Num (Fin \<alpha>)) (Fin p)"
      using q
    proof (elim disjE exE conjE)
      assume "q = PInf"
      then have "computeCostForWork rnd (Fin w) (Num q) (Fin p)
          = computeCostUsd rnd (Num (Fin 0)) (Fin p)"
        using r by (simp add: computeCostForWork_PInf computeCostUsd_def)
      with b show ?thesis by blast
    next
      fix y assume y: "q = Fin y" "x < y"
      then have y0: "0 < y" using x by simp
      have "w / y \<le> w / x" using y x w by (simp add: frac_le)
      then have le: "rnd (w / y) \<le> rnd (w / x)" by (rule rounding_mono [OF r])
      have "0 \<le> w / y" using w y0 by simp
      from rounding_nonneg [OF r this] le b obtain \<alpha> where
        "rnd (w / y) = Fin \<alpha>" "\<alpha> \<le> \<beta>" by auto
      then show ?thesis using y y0 by (auto simp: computeCostForWork_pos)
    qed
    then obtain \<alpha> where a: "\<alpha> \<le> \<beta>"
      "computeCostForWork rnd (Fin w) (Num q) (Fin p) = computeCostUsd rnd (Num (Fin \<alpha>)) (Fin p)"
      by blast
    from computeCostUsd_mono [OF r p a(1)] show ?thesis
      by (simp add: cb a(2))
  qed
qed

lemma computeCostForWork_Fin:
  assumes "0 < x" "0 < w"
  shows "computeCostForWork Fin (Fin w) (Num (Fin x)) (Fin pr) = Fin (w / x / 3600000000 * pr)"
proof -
  have "0 < w / x" using assms by simp
  then show ?thesis
    using assms by (simp add: computeCostForWork_pos computeCostUsd_pos fl_Fin)
qed

section \<open>The rounding of doubles\<close>

text \<open>Rounding a real to an integer, ties to even: it is exact on the integers, monotone
  and symmetric, and a real less than a half away from an integer is rounded to it.\<close>

lemma nearest_even_of_int: "nearest_even (of_int n) = n"
  by (simp add: nearest_even_def)

lemma nearest_even_bounds: "\<lfloor>x\<rfloor> \<le> nearest_even x \<and> nearest_even x \<le> \<lfloor>x\<rfloor> + 1"
  by (simp add: nearest_even_def Let_def)

lemma nearest_even_mono:
  assumes "x \<le> y"
  shows "nearest_even x \<le> nearest_even y"
proof (cases "\<lfloor>x\<rfloor> = \<lfloor>y\<rfloor>")
  case True
  then show ?thesis using assms by (auto simp: nearest_even_def Let_def)
next
  case False
  then have "\<lfloor>x\<rfloor> + 1 \<le> \<lfloor>y\<rfloor>" using floor_mono [OF assms] by simp
  then show ?thesis
    using nearest_even_bounds [of x] nearest_even_bounds [of y] by linarith
qed

lemma nearest_even_minus: "nearest_even (- x) = - nearest_even x"
proof (cases "x = of_int \<lfloor>x\<rfloor>")
  case True
  then obtain n where "x = of_int n" ..
  then have "- x = of_int (- n)" by simp
  then show ?thesis using \<open>x = of_int n\<close> by (simp only: nearest_even_of_int)
next
  case False
  then have lt: "of_int \<lfloor>x\<rfloor> < x" using of_int_floor_le [of x] by linarith
  have ub: "x < of_int \<lfloor>x\<rfloor> + 1" by linarith
  have f: "\<lfloor>- x\<rfloor> = - \<lfloor>x\<rfloor> - 1"
  proof (rule floor_unique)
    have c: "real_of_int (- \<lfloor>x\<rfloor> - 1) = - real_of_int \<lfloor>x\<rfloor> - 1" by simp
    show "of_int (- \<lfloor>x\<rfloor> - 1) \<le> - x" unfolding c using ub by linarith
    show "- x < of_int (- \<lfloor>x\<rfloor> - 1) + 1" unfolding c using lt by linarith
  qed
  show ?thesis
    using lt by (auto simp: nearest_even_def Let_def f)
qed

lemma nearest_even_near:
  assumes "\<bar>x - of_int n\<bar> < 1 / 2"
  shows "nearest_even x = n"
proof -
  consider "of_int n \<le> x" | "x < of_int n" by linarith
  then show ?thesis
  proof cases
    case 1
    then have "\<lfloor>x\<rfloor> = n" using assms by (intro floor_unique) linarith+
    then show ?thesis using assms 1 by (simp add: nearest_even_def Let_def)
  next
    case 2
    then have "\<lfloor>x\<rfloor> = n - 1" using assms by (intro floor_unique) (simp, linarith)+
    then show ?thesis using assms 2 by (simp add: nearest_even_def Let_def)
  qed
qed

lemma floor_log2_bounds:
  assumes "x \<noteq> 0"
  shows "2 powi \<lfloor>log 2 \<bar>x\<bar>\<rfloor> \<le> \<bar>x\<bar> \<and> \<bar>x\<bar> < 2 powi (\<lfloor>log 2 \<bar>x\<bar>\<rfloor> + 1)"
proof -
  have "0 < \<bar>x\<bar>" using assms by simp
  from floor_log_eq_powr_iff [OF this, of 2 "\<lfloor>log 2 \<bar>x\<bar>\<rfloor>"]
  have "2 powr real_of_int \<lfloor>log 2 \<bar>x\<bar>\<rfloor> \<le> \<bar>x\<bar>"
    "\<bar>x\<bar> < 2 powr real_of_int (\<lfloor>log 2 \<bar>x\<bar>\<rfloor> + 1)" by simp_all
  then show ?thesis by (simp only: powr_real_of_int' [of 2, simplified])
qed

lemma exponent_of_bounds:
  assumes "x \<noteq> 0"
  shows "- 1022 \<le> exponent_of x"
    and "\<bar>x\<bar> < 2 powi (exponent_of x + 1)"
    and "exponent_of x \<noteq> - 1022 \<Longrightarrow> 2 powi exponent_of x \<le> \<bar>x\<bar>"
proof -
  note b = floor_log2_bounds [OF assms]
  show "- 1022 \<le> exponent_of x" by (simp add: exponent_of_def)
  have "(2::real) powi (\<lfloor>log 2 \<bar>x\<bar>\<rfloor> + 1) \<le> 2 powi (exponent_of x + 1)"
    by (rule power_int_increasing) (simp_all add: exponent_of_def)
  then show "\<bar>x\<bar> < 2 powi (exponent_of x + 1)" using b by linarith
  show "2 powi exponent_of x \<le> \<bar>x\<bar>" if "exponent_of x \<noteq> - 1022"
  proof -
    from that have "exponent_of x = \<lfloor>log 2 \<bar>x\<bar>\<rfloor>" by (simp add: exponent_of_def max_def split: if_splits)
    then show ?thesis using b by simp
  qed
qed

lemma exponent_of_eq:
  assumes x: "x \<noteq> 0" and e: "- 1022 \<le> e" and ub: "\<bar>x\<bar> < 2 powi (e + 1)"
    and lb: "e = - 1022 \<or> 2 powi e \<le> \<bar>x\<bar>"
  shows "exponent_of x = e"
proof -
  let ?k = "\<lfloor>log 2 \<bar>x\<bar>\<rfloor>"
  note b = floor_log2_bounds [OF x]
  have ke: "?k \<le> e"
  proof (rule ccontr)
    assume "\<not> ?k \<le> e"
    then have "e + 1 \<le> ?k" by simp
    then have "(2::real) powi (e + 1) \<le> 2 powi ?k" by (rule power_int_increasing) simp
    then show False using b ub by linarith
  qed
  have "e = - 1022 \<or> e \<le> ?k"
  proof (rule ccontr)
    assume n: "\<not> (e = - 1022 \<or> e \<le> ?k)"
    then have "?k + 1 \<le> e" by simp
    then have "(2::real) powi (?k + 1) \<le> 2 powi e" by (rule power_int_increasing) simp
    then show False using b lb n by linarith
  qed
  then show ?thesis using ke e by (auto simp: exponent_of_def)
qed

lemma exponent_of_minus: "exponent_of (- x) = exponent_of x"
  by (simp add: exponent_of_def)

lemma exponent_of_mono:
  assumes "0 < x" "x \<le> y"
  shows "exponent_of x \<le> exponent_of y"
proof -
  have "log 2 \<bar>x\<bar> \<le> log 2 \<bar>y\<bar>" using assms by simp
  then have "\<lfloor>log 2 \<bar>x\<bar>\<rfloor> \<le> \<lfloor>log 2 \<bar>y\<bar>\<rfloor>" by (rule floor_mono)
  then show ?thesis by (simp add: exponent_of_def)
qed

lemma quantum_pos: "0 < quantum x"
  by (simp add: quantum_def zero_less_power_int)

lemma quantum_minus: "quantum (- x) = quantum x"
  by (simp add: quantum_def exponent_of_minus)

lemma quantum_scale:
  fixes M :: int
  shows "real_of_int M = 2 powi 52 \<Longrightarrow> of_int M * quantum x = 2 powi exponent_of x"
    and "real_of_int M = 2 powi 53 \<Longrightarrow> of_int M * quantum x = 2 powi (exponent_of x + 1)"
proof -
  have a: "exponent_of x = (exponent_of x - 52) + 52" by linarith
  have "(2::real) powi ((exponent_of x - 52) + 52) = 2 powi (exponent_of x - 52) * 2 powi 52"
    by (rule power_int_add) simp
  then have "(2::real) powi exponent_of x = 2 powi (exponent_of x - 52) * 2 powi 52"
    using a by simp
  then show "of_int M * quantum x = 2 powi exponent_of x" if "real_of_int M = 2 powi 52"
    using that by (simp only: quantum_def mult.commute)
  have b: "exponent_of x + 1 = (exponent_of x - 52) + 53" by linarith
  have "(2::real) powi ((exponent_of x - 52) + 53) = 2 powi (exponent_of x - 52) * 2 powi 53"
    by (rule power_int_add) simp
  then have "(2::real) powi (exponent_of x + 1) = 2 powi (exponent_of x - 52) * 2 powi 53"
    by (simp only: b)
  then show "of_int M * quantum x = 2 powi (exponent_of x + 1)" if "real_of_int M = 2 powi 53"
    using that by (simp only: quantum_def mult.commute)
qed

lemma round_to_quantum_minus: "round_to_quantum (- x) = - round_to_quantum x"
  by (simp add: round_to_quantum_def quantum_minus nearest_even_minus)

lemma round_to_quantum_bounds:
  assumes "0 < x"
  shows "0 \<le> round_to_quantum x"
    and "round_to_quantum x \<le> 2 powi (exponent_of x + 1)"
    and "exponent_of x \<noteq> - 1022 \<Longrightarrow> 2 powi exponent_of x \<le> round_to_quantum x"
proof -
  let ?q = "quantum x"
  have x: "x \<noteq> 0" "\<bar>x\<bar> = x" using assms by simp_all
  note q = quantum_pos [of x]
  have "0 \<le> x / ?q" using assms q by simp
  from nearest_even_mono [OF this] have "0 \<le> nearest_even (x / ?q)"
    using nearest_even_of_int [of 0] by simp
  then show "0 \<le> round_to_quantum x" using q by (simp add: round_to_quantum_def)
  define M :: int where "M = 2 ^ 53"
  have M: "real_of_int M = 2 powi 53" by (simp add: M_def)
  have "x < of_int M * ?q"
    using exponent_of_bounds(2) [OF x(1)] by (simp only: x(2) quantum_scale(2) [OF M])
  then have "x / ?q \<le> of_int M" using q by (simp add: pos_divide_le_eq)
  from nearest_even_mono [OF this] have "nearest_even (x / ?q) \<le> M"
    by (simp only: nearest_even_of_int)
  then have "real_of_int (nearest_even (x / ?q)) \<le> of_int M" by linarith
  then have "real_of_int (nearest_even (x / ?q)) * ?q \<le> of_int M * ?q"
    using q by (simp only: mult_le_cancel_right_pos)
  then show "round_to_quantum x \<le> 2 powi (exponent_of x + 1)"
    by (simp only: round_to_quantum_def quantum_scale(2) [OF M])
  show "2 powi exponent_of x \<le> round_to_quantum x" if "exponent_of x \<noteq> - 1022"
  proof -
    define L :: int where "L = 2 ^ 52"
    have L: "real_of_int L = 2 powi 52" by (simp add: L_def)
    have "of_int L * ?q \<le> x"
      using exponent_of_bounds(3) [OF x(1) that] by (simp only: x(2) quantum_scale(1) [OF L])
    then have "of_int L \<le> x / ?q" using q by (simp add: pos_le_divide_eq)
    from nearest_even_mono [OF this] have "L \<le> nearest_even (x / ?q)"
      by (simp only: nearest_even_of_int)
    then have "of_int L \<le> real_of_int (nearest_even (x / ?q))" by linarith
    then have "of_int L * ?q \<le> real_of_int (nearest_even (x / ?q)) * ?q"
      using q by (simp only: mult_le_cancel_right_pos)
    then show ?thesis by (simp only: round_to_quantum_def quantum_scale(1) [OF L])
  qed
qed

lemma round_to_quantum_mono_pos:
  assumes "0 < x" "x \<le> y"
  shows "round_to_quantum x \<le> round_to_quantum y"
proof (cases "exponent_of x = exponent_of y")
  case True
  then have q: "quantum y = quantum x" by (simp add: quantum_def)
  have "x / quantum x \<le> y / quantum x" using assms quantum_pos [of x] by (simp add: divide_right_mono)
  from nearest_even_mono [OF this] show ?thesis
    using quantum_pos [of x] by (simp add: round_to_quantum_def q)
next
  case False
  then have lt: "exponent_of x + 1 \<le> exponent_of y" using exponent_of_mono [OF assms] by simp
  have y: "0 < y" using assms by simp
  have "- 1022 \<le> exponent_of x" using exponent_of_bounds(1) [of x] assms by simp
  then have "exponent_of y \<noteq> - 1022" using lt by simp
  from round_to_quantum_bounds(3) [OF y this] have "2 powi exponent_of y \<le> round_to_quantum y" .
  moreover have "(2::real) powi (exponent_of x + 1) \<le> 2 powi exponent_of y"
    using lt by (rule power_int_increasing) simp
  ultimately show ?thesis using round_to_quantum_bounds(2) [OF assms(1)] by linarith
qed

lemma round_to_quantum_idem:
  assumes x: "0 < x" and y: "0 < round_to_quantum x"
  shows "round_to_quantum (round_to_quantum x) = round_to_quantum x"
proof -
  define y where "y = round_to_quantum x"
  define e where "e = exponent_of x"
  have y0: "0 < y" "y \<noteq> 0" "\<bar>y\<bar> = y" using y by (simp_all add: y_def)
  note b = round_to_quantum_bounds [OF x, folded y_def e_def]
  have e: "- 1022 \<le> e" using exponent_of_bounds(1) [of x] x by (simp add: e_def)
  have "round_to_quantum y = y"
  proof (cases "y = 2 powi (e + 1)")
    case True
    have "(2::real) powi (e + 1) < 2 powi (e + 1 + 1)"
      by (rule power_int_strict_increasing) simp_all
    then have ey: "exponent_of y = e + 1"
      using e True y0 by (intro exponent_of_eq) simp_all
    define L :: int where "L = 2 ^ 52"
    have L: "real_of_int L = 2 powi 52" by (simp add: L_def)
    have s: "of_int L * quantum y = y"
      using quantum_scale(1) [OF L, of y] by (simp only: ey True [symmetric])
    then have "y / quantum y = of_int L"
      using quantum_pos [of y] by (simp add: field_simps)
    then show ?thesis
      using s by (simp only: round_to_quantum_def nearest_even_of_int)
  next
    case False
    then have "y < 2 powi (e + 1)" using b(2) by simp
    moreover have "e = - 1022 \<or> 2 powi e \<le> y" using b(3) by blast
    ultimately have ey: "exponent_of y = e"
      using e y0 by (intro exponent_of_eq) simp_all
    then have q: "quantum y = quantum x" by (simp add: quantum_def e_def)
    have "y / quantum x = of_int (nearest_even (x / quantum x))"
      using quantum_pos [of x] by (simp add: y_def round_to_quantum_def)
    then have "round_to_quantum y = of_int (nearest_even (x / quantum x)) * quantum x"
      by (simp only: round_to_quantum_def q nearest_even_of_int)
    then show ?thesis by (simp add: y_def round_to_quantum_def)
  qed
  then show ?thesis by (simp add: y_def)
qed

lemma binary64_pos:
  "0 < x \<Longrightarrow> binary64 x = (if 2 ^ 1024 \<le> round_to_quantum x then PInf else Fin (round_to_quantum x))"
  using round_to_quantum_bounds(1) [of x]
  by (simp add: binary64_def Let_def inf_of_sign_def abs_of_nonneg del: power_numeral)

lemma inf_of_sign_minus: "inf_of_sign (- s) = - inf_of_sign s"
  by (simp add: inf_of_sign_def)

lemma binary64_minus: "binary64 (- x) = - binary64 x"
  by (simp add: binary64_def Let_def round_to_quantum_minus sgn_minus inf_of_sign_minus
      del: power_numeral)

lemma binary64_nonneg:
  assumes "0 \<le> x"
  shows "Fin 0 \<le> binary64 x"
proof (cases "x = 0")
  case True
  then show ?thesis by (simp add: binary64_def)
next
  case False
  then have "0 < x" using assms by simp
  then show ?thesis
    using round_to_quantum_bounds(1) [of x] by (simp add: binary64_pos del: power_numeral)
qed

lemma binary64_mono_pos:
  assumes "0 < x" "x \<le> y"
  shows "binary64 x \<le> binary64 y"
  using round_to_quantum_mono_pos [OF assms] assms
  by (simp add: binary64_pos del: power_numeral)

lemma jsnum_uminus_le: "(a::jsnum) \<le> b \<Longrightarrow> - b \<le> - a"
  by (cases a; cases b) simp_all

lemma jsnum_le_trans: "(a::jsnum) \<le> b \<Longrightarrow> b \<le> c \<Longrightarrow> a \<le> c"
  by (cases a; cases b; cases c) simp_all

lemma jsnum_uminus_uminus: "- (- (a::jsnum)) = a"
  by (cases a) simp_all

lemma binary64_mono:
  assumes "x \<le> y"
  shows "binary64 x \<le> binary64 y"
proof -
  consider "0 < x" | "x = 0" | "x < 0" "y < 0" | "x < 0" "0 \<le> y" by linarith
  then show ?thesis
  proof cases
    case 1
    then show ?thesis using assms by (rule binary64_mono_pos)
  next
    case 2
    then show ?thesis using binary64_nonneg [of y] assms by (simp add: binary64_def)
  next
    case 3
    then have "0 < - y" "- y \<le> - x" using assms by simp_all
    then have "binary64 (- y) \<le> binary64 (- x)" by (rule binary64_mono_pos)
    then have "- binary64 (- x) \<le> - binary64 (- y)" by (rule jsnum_uminus_le)
    then show ?thesis by (simp only: binary64_minus jsnum_uminus_uminus)
  next
    case 4
    then have "Fin 0 \<le> binary64 (- x)" by (intro binary64_nonneg) simp
    then have "- binary64 (- x) \<le> - Fin 0" by (rule jsnum_uminus_le)
    then have "binary64 x \<le> Fin 0" by (simp add: binary64_minus jsnum_uminus_uminus)
    then show ?thesis using binary64_nonneg [OF 4(2)] by (rule jsnum_le_trans)
  qed
qed

lemma binary64_exact_pos:
  assumes x: "0 < x" and y: "binary64 x = Fin y"
  shows "binary64 y = Fin y"
proof -
  from y x have r: "y = round_to_quantum x" "\<not> 2 ^ 1024 \<le> round_to_quantum x"
    by (simp_all add: binary64_pos del: power_numeral split: if_splits)
  show ?thesis
  proof (cases "y = 0")
    case True
    then show ?thesis by (simp add: binary64_def)
  next
    case False
    then have "0 < round_to_quantum x" using round_to_quantum_bounds(1) [OF x] r by simp
    from round_to_quantum_idem [OF x this] have "round_to_quantum y = y" by (simp add: r)
    then show ?thesis
      using r \<open>0 < round_to_quantum x\<close> by (simp add: binary64_pos del: power_numeral)
  qed
qed

lemma binary64_exact:
  assumes "binary64 x = Fin y"
  shows "binary64 y = Fin y"
proof -
  consider "0 < x" | "x = 0" | "x < 0" by linarith
  then show ?thesis
  proof cases
    case 1
    then show ?thesis using assms by (rule binary64_exact_pos)
  next
    case 2
    then show ?thesis using assms by (auto simp: binary64_def)
  next
    case 3
    then have "0 < - x" by simp
    moreover have "binary64 (- x) = Fin (- y)" using assms by (simp add: binary64_minus)
    ultimately have "binary64 (- y) = Fin (- y)" by (rule binary64_exact_pos)
    then have "- binary64 y = Fin (- y)" by (simp only: binary64_minus)
    then show ?thesis by (cases "binary64 y") simp_all
  qed
qed

lemma rounding_binary64: "rounding binary64"
  unfolding rounding_def
  using binary64_mono binary64_minus binary64_exact by (simp add: binary64_def)

text \<open>The value of \<open>binary64\<close> at a positive \<open>x\<close>, from the exponent \<open>e\<close> of its binade
  and an integer \<open>n\<close> less than a half away from \<open>x\<close> in units of the quantum; and
  overflow.\<close>

lemma binary64_eval:
  assumes x: "0 < x" and e: "- 1022 \<le> e" "e \<le> 1022"
    and lb: "e = - 1022 \<or> 2 powi e \<le> x" and ub: "x < 2 powi (e + 1)"
    and n: "\<bar>x / 2 powi (e - 52) - of_int n\<bar> < 1 / 2"
  shows "binary64 x = Fin (of_int n * 2 powi (e - 52))"
proof -
  have ex: "exponent_of x = e"
    using x e lb ub by (intro exponent_of_eq) simp_all
  then have q: "quantum x = 2 powi (e - 52)" by (simp add: quantum_def)
  have r: "round_to_quantum x = of_int n * 2 powi (e - 52)"
    using nearest_even_near [OF n] by (simp add: round_to_quantum_def q)
  have "round_to_quantum x \<le> 2 powi (e + 1)"
    using round_to_quantum_bounds(2) [OF x] by (simp only: ex)
  also have "(2::real) powi (e + 1) \<le> 2 powi 1023"
    using e by (intro power_int_increasing) simp_all
  also have "(2::real) powi 1023 < 2 ^ 1024"
    by (simp only: power_int_numeral) (rule power_strict_increasing, simp_all)
  finally have "\<not> 2 ^ 1024 \<le> round_to_quantum x" by simp
  then show ?thesis using x r by (simp only: binary64_pos if_False)
qed

lemma binary64_overflow:
  assumes "2 ^ 1024 \<le> x"
  shows "binary64 x = PInf"
proof -
  have p: "(2::real) powi 1024 = 2 ^ 1024" by (simp only: power_int_numeral)
  have "(0::real) < 2 ^ 1024" by (rule zero_less_power) simp
  then have x: "0 < x" "x \<noteq> 0" "\<bar>x\<bar> = x" using assms by linarith+
  have "1024 \<le> exponent_of x"
  proof (rule ccontr)
    assume "\<not> 1024 \<le> exponent_of x"
    then have "exponent_of x + 1 \<le> 1024" by simp
    then have "(2::real) powi (exponent_of x + 1) \<le> 2 powi 1024"
      by (rule power_int_increasing) simp
    then show False using exponent_of_bounds(2) [OF x(2)] x(3) assms p by linarith
  qed
  then have "(2::real) powi 1024 \<le> 2 powi exponent_of x" "exponent_of x \<noteq> - 1022"
    by (simp_all add: power_int_increasing del: power_int_numeral)
  with round_to_quantum_bounds(3) [OF x(1)] have "2 ^ 1024 \<le> round_to_quantum x"
    using p by linarith
  then show ?thesis using x(1) by (simp only: binary64_pos if_True)
qed

lemma binary64_1: "binary64 1 = Fin 1"
  using binary64_eval [of 1 0 "2 ^ 52"] by simp

lemma binary64_64: "binary64 64 = Fin 64"
  using binary64_eval [of 64 6 "2 ^ 52"] by simp

lemma binary64_third:
  "binary64 (1000000000 / 3) = Fin (5592405333333333 / 2 ^ 24)"
  using binary64_eval [of "1000000000 / 3" 28 5592405333333333] by simp

lemma binary64_third':
  "binary64 (1000000000 / (3 + 1 / 2 ^ 51)) = Fin (5592405333333333 / 2 ^ 24)"
  using binary64_eval [of "1000000000 / (3 + 1 / 2 ^ 51)" 28 5592405333333333] by simp

section \<open>The sign of the cost delta\<close>

text \<open>
  C9 (as amended). Whenever \<open>enstPolicy > enstBaseline > 0\<close> and the price and the
  reference work are finite and positive, \<open>computeDeltaCostPerWork\<close> is never positive:
  under every rounding it is \<open>null\<close> (a quotient or a cost has overflowed) or at most 0,
  and it is negative when no operation rounds. It is \<open>null\<close> whenever either side's ENST
  is absent or non-positive, for every price and reference work; and under every rounding
  it is never infinite or \<open>NaN\<close>.
\<close>

theorem computeDeltaCostPerWork_sign:
  "(rounding rnd \<and> enstBaseline = Num b \<and> enstPolicy = Num q \<and> Fin 0 < b \<and> b < q
      \<and> 0 < price \<and> 0 < w \<longrightarrow>
      computeDeltaCostPerWork rnd enstBaseline enstPolicy (Fin price) (Fin w) = Null
      \<or> (\<exists>d. computeDeltaCostPerWork rnd enstBaseline enstPolicy (Fin price) (Fin w) = Num (Fin d)
            \<and> d \<le> 0))
   \<and> (enstBaseline = Num b \<and> enstPolicy = Num q \<and> Fin 0 < b \<and> b < q
      \<and> 0 < price \<and> 0 < w \<longrightarrow>
      (\<exists>d. computeDeltaCostPerWork Fin enstBaseline enstPolicy (Fin price) (Fin w) = Num (Fin d)
           \<and> d < 0))
   \<and> (\<not> present enstBaseline \<or> ToNumber enstBaseline \<le> Fin 0
        \<or> \<not> present enstPolicy \<or> ToNumber enstPolicy \<le> Fin 0 \<longrightarrow>
      computeDeltaCostPerWork rnd enstBaseline enstPolicy priceUsdPerMwh referenceWorkUnits = Null)
   \<and> (rounding rnd \<longrightarrow>
      computeDeltaCostPerWork rnd enstBaseline enstPolicy priceUsdPerMwh referenceWorkUnits
        \<notin> {Num PInf, Num NInf, Num NaN})"
proof (intro conjI impI; (elim conjE)?)
  assume r: "rounding rnd" and eb: "enstBaseline = Num b" and ep: "enstPolicy = Num q"
    and pos: "Fin 0 < b" and lt: "b < q" and pr: "0 < price" and w: "0 < w"
  from pos lt obtain x where b: "b = Fin x" "0 < x"
    by (cases b; cases q) auto
  from lt b have q: "q = PInf \<or> (\<exists>y. q = Fin y \<and> x < y)"
    by (cases q) auto
  let ?cB = "computeCostForWork rnd (Fin w) (Num (Fin x)) (Fin price)"
  let ?cP = "computeCostForWork rnd (Fin w) (Num q) (Fin price)"
  let ?d = "computeDeltaCostPerWork rnd enstBaseline enstPolicy (Fin price) (Fin w)"
  have d: "?d = (if \<not> isFinite ?cB \<or> \<not> isFinite ?cP then Null else Num (fl rnd (?cP - ?cB)))"
    using eb ep b by (simp add: computeDeltaCostPerWork_def Let_def)
  show "?d = Null \<or> (\<exists>d. ?d = Num (Fin d) \<and> d \<le> 0)"
  proof (cases "isFinite ?cB \<and> isFinite ?cP")
    case False
    then show ?thesis using d by auto
  next
    case True
    then obtain c a where c: "?cB = Fin c" and a: "?cP = Fin a"
      by (auto simp: isFinite_iff)
    from computeCostForWork_mono [OF r pr w b(2) q] c a have ac: "0 \<le> a" "a \<le> c"
      by simp_all
    have "rnd c = Fin c" using computeCostForWork_exact [OF r c] by simp
    then have lo: "rnd (- c) = Fin (- c)" by (rule rounding_neg_exact [OF r])
    have "- c \<le> a - c" "a - c \<le> 0" using ac by simp_all
    from rounding_between [OF r lo rounding_zero [OF r] this]
    obtain e where "rnd (a - c) = Fin e" "e \<le> 0" by auto
    then show ?thesis using d c a by (simp add: minus_jsnum_def fl_Fin)
  qed
next
  assume eb: "enstBaseline = Num b" and ep: "enstPolicy = Num q"
    and pos: "Fin 0 < b" and lt: "b < q" and pr: "0 < price" and w: "0 < w"
  from pos lt obtain x where b: "b = Fin x" "0 < x"
    by (cases b; cases q) auto
  have cb: "computeCostForWork Fin (Fin w) enstBaseline (Fin price) = Fin (w / x / 3600000000 * price)"
    using eb b w by (simp add: computeCostForWork_Fin)
  show "\<exists>d. computeDeltaCostPerWork Fin enstBaseline enstPolicy (Fin price) (Fin w) = Num (Fin d) \<and> d < 0"
  proof (cases q)
    case (Fin y)
    with lt b have xy: "x < y" by simp
    then have y: "0 < y" using b by simp
    have cp: "computeCostForWork Fin (Fin w) enstPolicy (Fin price) = Fin (w / y / 3600000000 * price)"
      using ep Fin y w by (simp add: computeCostForWork_Fin)
    have "w / y < w / x"
      using xy b w by (simp add: frac_less2)
    then have "w / y / 3600000000 < w / x / 3600000000"
      by (rule divide_strict_right_mono) simp
    then have "w / y / 3600000000 * price < w / x / 3600000000 * price"
      using pr by (rule mult_strict_right_mono)
    then have "w / y / 3600000000 * price - w / x / 3600000000 * price < 0"
      by linarith
    then show ?thesis
      using cb cp by (simp add: computeDeltaCostPerWork_def Let_def minus_jsnum_def fl_Fin)
  next
    case PInf
    have cp: "computeCostForWork Fin (Fin w) enstPolicy (Fin price) = Fin 0"
      using ep PInf by (simp add: computeCostForWork_PInf rounding_Fin)
    have "0 < w / x / 3600000000 * price"
      using b w pr by simp
    then show ?thesis
      using cb cp by (simp add: computeDeltaCostPerWork_def Let_def minus_jsnum_def fl_Fin)
  qed (use lt b in auto)
next
  assume "\<not> present enstBaseline \<or> ToNumber enstBaseline \<le> Fin 0
        \<or> \<not> present enstPolicy \<or> ToNumber enstPolicy \<le> Fin 0"
  then have "computeCostForWork rnd referenceWorkUnits enstBaseline priceUsdPerMwh = PInf
     \<or> computeCostForWork rnd referenceWorkUnits enstPolicy priceUsdPerMwh = PInf"
    using computeCostForWork_unbounded by blast
  then show "computeDeltaCostPerWork rnd enstBaseline enstPolicy priceUsdPerMwh referenceWorkUnits = Null"
    by (auto simp: computeDeltaCostPerWork_def Let_def)
next
  assume r: "rounding rnd"
  let ?cB = "computeCostForWork rnd referenceWorkUnits enstBaseline priceUsdPerMwh"
  let ?cP = "computeCostForWork rnd referenceWorkUnits enstPolicy priceUsdPerMwh"
  let ?d = "computeDeltaCostPerWork rnd enstBaseline enstPolicy priceUsdPerMwh referenceWorkUnits"
  have d: "?d = (if \<not> isFinite ?cB \<or> \<not> isFinite ?cP then Null else Num (fl rnd (?cP - ?cB)))"
    by (simp add: computeDeltaCostPerWork_def Let_def)
  show "?d \<notin> {Num PInf, Num NInf, Num NaN}"
  proof (cases "isFinite ?cB \<and> isFinite ?cP")
    case False
    then show ?thesis using d by auto
  next
    case True
    then obtain c a where c: "?cB = Fin c" and a: "?cP = Fin a"
      by (auto simp: isFinite_iff)
    from delta_finite [OF r a c] obtain e where "rnd (a - c) = Fin e" by blast
    then show ?thesis using d c a by (simp add: minus_jsnum_def fl_Fin)
  qed
qed

text \<open>In exact arithmetic, the input of the repository's test, ENST 0.001 against 0.002
  at 50 USD per MWh, and a baseline ENST of 0 and of \<open>null\<close>; on doubles, ENST 3 against
  the next double above 3.\<close>

theorem computeDeltaCostPerWork_sign_witness:
  "rounding Fin
   \<and> computeDeltaCostPerWork Fin (Num (Fin (1 / 1000))) (Num (Fin (2 / 1000))) (Fin 50)
        REFERENCE_WORK_UNITS \<noteq> Null
   \<and> ToNumber (computeDeltaCostPerWork Fin (Num (Fin (1 / 1000))) (Num (Fin (2 / 1000))) (Fin 50)
        REFERENCE_WORK_UNITS) < Fin 0
   \<and> computeDeltaCostPerWork Fin (Num (Fin 0)) (Num (Fin 1)) (Fin 50) REFERENCE_WORK_UNITS = Null
   \<and> computeDeltaCostPerWork Fin Null (Num (Fin 1)) (Fin 50) REFERENCE_WORK_UNITS = Null
   \<and> rounding binary64
   \<and> ToNumber (computeDeltaCostPerWork binary64 (Num (Fin 3)) (Num (Fin (3 + 1 / 2 ^ 51))) (Fin 50)
        REFERENCE_WORK_UNITS) \<le> Fin 0
   \<and> computeDeltaCostPerWork binary64 (Num (Fin 3)) (Num (Fin (3 + 1 / 2 ^ 51))) (Fin 50)
        REFERENCE_WORK_UNITS \<notin> {Num PInf, Num NInf, Num NaN}"
proof -
  have a: "\<exists>d. computeDeltaCostPerWork Fin (Num (Fin (1 / 1000))) (Num (Fin (2 / 1000))) (Fin 50)
        REFERENCE_WORK_UNITS = Num (Fin d) \<and> d < 0"
    using computeDeltaCostPerWork_sign [of Fin "Num (Fin (1 / 1000))" "Fin (1 / 1000)"
        "Num (Fin (2 / 1000))" "Fin (2 / 1000)" 50 1000000000 "Fin 50" REFERENCE_WORK_UNITS,
        THEN conjunct2, THEN conjunct1]
    by (simp add: REFERENCE_WORK_UNITS_def)
  have b: "computeDeltaCostPerWork Fin (Num (Fin 0)) (Num (Fin 1)) (Fin 50) REFERENCE_WORK_UNITS = Null"
    using computeDeltaCostPerWork_sign [of Fin "Num (Fin 0)" "Fin 0" "Num (Fin 1)" "Fin 1" 50
        1000000000 "Fin 50" REFERENCE_WORK_UNITS, THEN conjunct2, THEN conjunct2, THEN conjunct1]
    by simp
  have c: "computeDeltaCostPerWork Fin Null (Num (Fin 1)) (Fin 50) REFERENCE_WORK_UNITS = Null"
    using computeDeltaCostPerWork_sign [of Fin Null "Fin 0" "Num (Fin 1)" "Fin 1" 50
        1000000000 "Fin 50" REFERENCE_WORK_UNITS, THEN conjunct2, THEN conjunct2, THEN conjunct1]
    by (simp add: present_def)
  have r: "rounding binary64" by (rule rounding_binary64)
  have "(Fin 3 :: jsnum) < Fin (3 + 1 / 2 ^ 51)" by simp
  then have d: "computeDeltaCostPerWork binary64 (Num (Fin 3)) (Num (Fin (3 + 1 / 2 ^ 51))) (Fin 50)
        REFERENCE_WORK_UNITS = Null
      \<or> (\<exists>d. computeDeltaCostPerWork binary64 (Num (Fin 3)) (Num (Fin (3 + 1 / 2 ^ 51))) (Fin 50)
        REFERENCE_WORK_UNITS = Num (Fin d) \<and> d \<le> 0)"
    using computeDeltaCostPerWork_sign [of binary64 "Num (Fin 3)" "Fin 3"
        "Num (Fin (3 + 1 / 2 ^ 51))" "Fin (3 + 1 / 2 ^ 51)" 50 1000000000 "Fin 50"
        REFERENCE_WORK_UNITS, THEN conjunct1] r
    by (simp add: REFERENCE_WORK_UNITS_def)
  have e: "computeDeltaCostPerWork binary64 (Num (Fin 3)) (Num (Fin (3 + 1 / 2 ^ 51))) (Fin 50)
        REFERENCE_WORK_UNITS \<notin> {Num PInf, Num NInf, Num NaN}"
    using computeDeltaCostPerWork_sign [of binary64 "Num (Fin 3)" "Fin 3"
        "Num (Fin (3 + 1 / 2 ^ 51))" "Fin (3 + 1 / 2 ^ 51)" 50 1000000000 "Fin 50"
        REFERENCE_WORK_UNITS, THEN conjunct2, THEN conjunct2, THEN conjunct2] r
    by simp
  have f: "ToNumber (computeDeltaCostPerWork binary64 (Num (Fin 3)) (Num (Fin (3 + 1 / 2 ^ 51)))
        (Fin 50) REFERENCE_WORK_UNITS) \<le> Fin 0"
    using d by auto
  have g: "computeDeltaCostPerWork Fin (Num (Fin (1 / 1000))) (Num (Fin (2 / 1000))) (Fin 50)
        REFERENCE_WORK_UNITS \<noteq> Null
     \<and> ToNumber (computeDeltaCostPerWork Fin (Num (Fin (1 / 1000))) (Num (Fin (2 / 1000))) (Fin 50)
        REFERENCE_WORK_UNITS) < Fin 0"
    using a by auto
  show ?thesis
    using g b c r e f rounding_Fin by (intro conjI) simp_all
qed

text \<open>On doubles, the delta at the input of the repository's test is negative, as the test
  expects. The doubles nearest to 0.001 and 0.002 are \<open>1152921504606847 / 2 ^ 60\<close> and
  \<open>1152921504606847 / 2 ^ 59\<close>; the energies are \<open>1e12\<close> and \<open>5e11\<close> joules, and each
  quotient and product below is rounded.\<close>

lemma computeCostForWork_binary64_test_baseline:
  "computeCostForWork binary64 (Fin 1000000000) (Num (Fin (1152921504606847 / 2 ^ 60))) (Fin 50)
     = Fin (7635497415111111 / 2 ^ 39)"
proof -
  have e: "binary64 (1000000000 / (1152921504606847 / 2 ^ 60)) = Fin 1000000000000"
    using binary64_eval [of "1000000000 / (1152921504606847 / 2 ^ 60)" 39 8192000000000000]
    by simp
  have m: "binary64 (1000000000000 / 3600000000) = Fin (4886718345671111 / 2 ^ 44)"
    using binary64_eval [of "1000000000000 / 3600000000" 8 4886718345671111] by simp
  have c: "binary64 (4886718345671111 / 2 ^ 44 * 50) = Fin (7635497415111111 / 2 ^ 39)"
    using binary64_eval [of "4886718345671111 / 2 ^ 44 * 50" 13 7635497415111111] by simp
  have p1: "(0::real) < 1152921504606847 / 2 ^ 60" and p2: "(0::real) < 1000000000000"
    by simp_all
  show ?thesis
    by (simp only: computeCostForWork_pos [OF p1] e jsnum.case computeCostUsd_pos [OF p2] m
        times_jsnum.simps fl_Fin c)
qed

lemma computeCostForWork_binary64_test_policy:
  "computeCostForWork binary64 (Fin 1000000000) (Num (Fin (1152921504606847 / 2 ^ 59))) (Fin 50)
     = Fin (7635497415111111 / 2 ^ 40)"
proof -
  have e: "binary64 (1000000000 / (1152921504606847 / 2 ^ 59)) = Fin 500000000000"
    using binary64_eval [of "1000000000 / (1152921504606847 / 2 ^ 59)" 38 8192000000000000]
    by simp
  have m: "binary64 (500000000000 / 3600000000) = Fin (4886718345671111 / 2 ^ 45)"
    using binary64_eval [of "500000000000 / 3600000000" 7 4886718345671111] by simp
  have c: "binary64 (4886718345671111 / 2 ^ 45 * 50) = Fin (7635497415111111 / 2 ^ 40)"
    using binary64_eval [of "4886718345671111 / 2 ^ 45 * 50" 12 7635497415111111] by simp
  have p1: "(0::real) < 1152921504606847 / 2 ^ 59" and p2: "(0::real) < 500000000000"
    by simp_all
  show ?thesis
    by (simp only: computeCostForWork_pos [OF p1] e jsnum.case computeCostUsd_pos [OF p2] m
        times_jsnum.simps fl_Fin c)
qed

lemma computeDeltaCostPerWork_binary64_test:
  "computeDeltaCostPerWork binary64 (Num (Fin (1152921504606847 / 2 ^ 60)))
     (Num (Fin (1152921504606847 / 2 ^ 59))) (Fin 50) (Fin 1000000000)
     = Num (Fin (- (7635497415111111 / 2 ^ 40)))"
proof -
  have "binary64 (7635497415111111 / 2 ^ 40) = Fin (7635497415111111 / 2 ^ 40)"
    using binary64_eval [of "7635497415111111 / 2 ^ 40" 12 7635497415111111] by simp
  then have n: "binary64 (- (7635497415111111 / 2 ^ 40)) = Fin (- (7635497415111111 / 2 ^ 40))"
    by (simp only: binary64_minus uminus_jsnum.simps)
  have s: "Fin (7635497415111111 / 2 ^ 40) - Fin (7635497415111111 / 2 ^ 39)
      = Fin (- (7635497415111111 / 2 ^ 40))"
    by (simp add: minus_jsnum_def)
  show ?thesis
    by (simp only: computeDeltaCostPerWork_def Let_def computeCostForWork_binary64_test_baseline
        computeCostForWork_binary64_test_policy isFinite.simps simp_thms if_False s fl_Fin n)
qed

text \<open>The delta on doubles where it is not negative: at the price 0; at ENST 3 against the
  next double above 3, where the two quotients \<open>1e9 / enst\<close> round to one double; and at
  the baseline ENST \<open>2 ^ - 1000\<close>, where the quotient overflows.\<close>

lemma computeCostUsd_binary64_finite:
  assumes "0 < x" "x \<le> 3600000000"
  shows "\<exists>c. computeCostUsd binary64 (Num (Fin x)) (Fin 50) = Fin c"
proof -
  note r = rounding_binary64
  have "0 \<le> x / 3600000000" "x / 3600000000 \<le> 1" using assms by simp_all
  from rounding_between [OF r rounding_zero [OF r] binary64_1 this]
  obtain m where m: "binary64 (x / 3600000000) = Fin m" "0 \<le> m" "m \<le> 1" by blast
  then have "0 \<le> m * 50" "m * 50 \<le> 64" by simp_all
  from rounding_between [OF r rounding_zero [OF r] binary64_64 this]
  obtain c where "binary64 (m * 50) = Fin c" by blast
  then show ?thesis using assms m by (simp add: computeCostUsd_pos fl_Fin)
qed

lemma computeDeltaCostPerWork_binary64_equal:
  "computeDeltaCostPerWork binary64 (Num (Fin 3)) (Num (Fin (3 + 1 / 2 ^ 51))) (Fin 50)
     REFERENCE_WORK_UNITS = Num (Fin 0)"
proof -
  let ?e = "5592405333333333 / 2 ^ 24 :: real"
  have b: "computeCostForWork binary64 (Fin 1000000000) (Num (Fin 3)) (Fin 50)
      = computeCostUsd binary64 (Num (Fin ?e)) (Fin 50)"
  proof -
    have "(0::real) < 3" by simp
    from computeCostForWork_pos [OF this, of binary64 1000000000 "Fin 50"]
    show ?thesis by (simp only: binary64_third jsnum.case)
  qed
  have p: "computeCostForWork binary64 (Fin 1000000000) (Num (Fin (3 + 1 / 2 ^ 51))) (Fin 50)
      = computeCostUsd binary64 (Num (Fin ?e)) (Fin 50)"
  proof -
    have "(0::real) < 3 + 1 / 2 ^ 51" by simp
    from computeCostForWork_pos [OF this, of binary64 1000000000 "Fin 50"]
    show ?thesis by (simp only: binary64_third' jsnum.case)
  qed
  have "0 < ?e" "?e \<le> 3600000000" by simp_all
  from computeCostUsd_binary64_finite [OF this]
  obtain c where "computeCostUsd binary64 (Num (Fin ?e)) (Fin 50) = Fin c" by blast
  then show ?thesis
    using b p rounding_zero [OF rounding_binary64]
    by (simp add: computeDeltaCostPerWork_def REFERENCE_WORK_UNITS_def Let_def minus_jsnum_def
        fl_Fin)
qed

lemma computeDeltaCostPerWork_binary64_overflow:
  "computeDeltaCostPerWork binary64 (Num (Fin (1 / 2 ^ 1000))) (Num (Fin 1)) (Fin 50)
     REFERENCE_WORK_UNITS = Null"
proof -
  have "binary64 (1000000000 / (1 / 2 ^ 1000)) = PInf"
    by (rule binary64_overflow) simp
  then have "computeCostForWork binary64 (Fin 1000000000) (Num (Fin (1 / 2 ^ 1000))) (Fin 50) = PInf"
    using computeCostForWork_pos [of "1 / 2 ^ 1000" binary64 1000000000 "Fin 50"] by simp
  then show ?thesis
    by (simp add: computeDeltaCostPerWork_def REFERENCE_WORK_UNITS_def Let_def)
qed

lemma binary64_1e9: "binary64 1000000000 = Fin 1000000000"
  using binary64_eval [of 1000000000 29 "1000000000 * 2 ^ 23"] by simp

lemma binary64_5e8: "binary64 500000000 = Fin 500000000"
  using binary64_eval [of 500000000 28 "500000000 * 2 ^ 24"] by simp

lemma computeCostUsd_binary64_free:
  assumes "0 < x" "x \<le> 3600000000"
  shows "computeCostUsd binary64 (Num (Fin x)) (Fin 0) = Fin 0"
proof -
  note r = rounding_binary64
  have "0 \<le> x / 3600000000" "x / 3600000000 \<le> 1" using assms by simp_all
  from rounding_between [OF r rounding_zero [OF r] binary64_1 this]
  obtain m where m: "binary64 (x / 3600000000) = Fin m" by blast
  then show ?thesis using assms rounding_zero [OF r] by (simp add: computeCostUsd_pos fl_Fin)
qed

lemma computeDeltaCostPerWork_binary64_free:
  "computeDeltaCostPerWork binary64 (Num (Fin 1)) (Num (Fin 2)) (Fin 0) REFERENCE_WORK_UNITS
     = Num (Fin 0)"
proof -
  have b: "computeCostForWork binary64 (Fin 1000000000) (Num (Fin 1)) (Fin 0) = Fin 0"
    using computeCostForWork_pos [of 1 binary64 1000000000 "Fin 0"]
    by (simp add: binary64_1e9 computeCostUsd_binary64_free)
  have p: "computeCostForWork binary64 (Fin 1000000000) (Num (Fin 2)) (Fin 0) = Fin 0"
    using computeCostForWork_pos [of 2 binary64 1000000000 "Fin 0"]
    by (simp add: binary64_5e8 computeCostUsd_binary64_free)
  show ?thesis
    using b p rounding_zero [OF rounding_binary64]
    by (simp add: computeDeltaCostPerWork_def REFERENCE_WORK_UNITS_def Let_def minus_jsnum_def
        fl_Fin)
qed

lemma computeDeltaCostPerWork_baseline_zero:
  "computeDeltaCostPerWork rnd (Num (Fin 0)) (Num (Fin 1)) (Fin 50) REFERENCE_WORK_UNITS = Null"
  by (simp add: computeDeltaCostPerWork_def computeCostForWork_def computeEnergyForWork_def
      Let_def)

lemma computeDeltaCostPerWork_exact_free:
  "computeDeltaCostPerWork Fin (Num (Fin 1)) (Num (Fin 2)) (Fin 0) REFERENCE_WORK_UNITS
     = Num (Fin 0)"
  by (simp add: computeDeltaCostPerWork_def computeCostForWork_def computeEnergyForWork_def
      computeCostUsd_def REFERENCE_WORK_UNITS_def JOULES_PER_MWH_def minus_jsnum_def fl_def)

text \<open>
  C9 as stated fails. At the price 0 the delta of ENST 1 against 2 is 0 and not negative,
  in exact arithmetic and on doubles; at the baseline ENST 0 with the policy ENST 1 (so
  \<open>enstPolicy > enstBaseline\<close>) it is \<open>null\<close> and not negative; on doubles at the price
  50, the delta of ENST 3 against \<open>3 + 2 ^ - 51\<close> is 0, and the delta of ENST
  \<open>2 ^ - 1000\<close> against 1 is \<open>null\<close>.
\<close>

theorem computeDeltaCostPerWork_counterexample:
  "(Fin 1 :: jsnum) < Fin 2
   \<and> computeDeltaCostPerWork Fin (Num (Fin 1)) (Num (Fin 2)) (Fin 0) REFERENCE_WORK_UNITS
       = Num (Fin 0)
   \<and> computeDeltaCostPerWork binary64 (Num (Fin 1)) (Num (Fin 2)) (Fin 0) REFERENCE_WORK_UNITS
       = Num (Fin 0)
   \<and> (Fin 0 :: jsnum) < Fin 1
   \<and> computeDeltaCostPerWork binary64 (Num (Fin 0)) (Num (Fin 1)) (Fin 50) REFERENCE_WORK_UNITS
       = Null
   \<and> (Fin 3 :: jsnum) < Fin (3 + 1 / 2 ^ 51)
   \<and> computeDeltaCostPerWork binary64 (Num (Fin 3)) (Num (Fin (3 + 1 / 2 ^ 51))) (Fin 50)
       REFERENCE_WORK_UNITS = Num (Fin 0)
   \<and> (Fin (1 / 2 ^ 1000) :: jsnum) < Fin 1
   \<and> computeDeltaCostPerWork binary64 (Num (Fin (1 / 2 ^ 1000))) (Num (Fin 1)) (Fin 50)
       REFERENCE_WORK_UNITS = Null"
  by (intro conjI computeDeltaCostPerWork_exact_free computeDeltaCostPerWork_binary64_free
      computeDeltaCostPerWork_baseline_zero computeDeltaCostPerWork_binary64_equal
      computeDeltaCostPerWork_binary64_overflow) simp_all

section \<open>The energy of a window\<close>

lemma foldl_add_sum_list:
  "foldl (\<lambda>acc i. acc + f i) z xs = (z::jsnum) + sum_list (map f xs)"
  by (induction xs arbitrary: z) (simp_all add: add.assoc)

lemma energy_loop_trapezoid:
  "foldl (energy_step ss) (Fin 0) [1..<length ss] = trapezoid_sum ss"
proof -
  have "energy_step ss = (\<lambda>acc i. acc +
       ((sample_power (ss ! (i - 1)) + sample_power (ss ! i)) / Fin 2)
         * Fin ((sample_ts (ss ! i) - sample_ts (ss ! (i - 1))) / 1000000))"
    by (intro ext) (simp add: energy_step_def Let_def add.commute)
  then show ?thesis
    by (simp add: foldl_add_sum_list trapezoid_sum_def zero_jsnum_def [symmetric])
qed

text \<open>
  C2. The energy \<open>emit\<close> yields for a window is 0 when the window has no sample; the
  power of the sample times the duration of the window in seconds when it has exactly
  one; and, when it has two or more, the trapezoidal sum over its samples sorted by
  timestamp (the sort keeps all the samples and orders them by timestamp).
\<close>

theorem computeEnergy_cases:
  "(power_samples w = [] \<longrightarrow> e_energy_j_window (emit_power_window agg w) = Fin 0)
   \<and> (\<forall>s. power_samples w = [s] \<longrightarrow>
         e_energy_j_window (emit_power_window agg w)
           = sample_power s * Fin (windowSizeUs agg / 1000000))
   \<and> (2 \<le> length (power_samples w) \<longrightarrow>
         e_energy_j_window (emit_power_window agg w)
           = trapezoid_sum (sort_key sample_ts (power_samples w))
         \<and> sorted (map sample_ts (sort_key sample_ts (power_samples w)))
         \<and> mset (sort_key sample_ts (power_samples w)) = mset (power_samples w))"
proof -
  have many: "computeEnergy agg xs = trapezoid_sum (sort_key sample_ts xs)"
    if "2 \<le> length xs" for xs
    using that energy_loop_trapezoid [of "sort_key sample_ts xs"]
    by (simp add: computeEnergy_def Let_def)
  have energy: "e_energy_j_window (emit_power_window agg w) = computeEnergy agg (power_samples w)"
    by (simp add: emit_power_window_def Let_def)
  show ?thesis
    unfolding energy using many by (auto simp: computeEnergy_def Let_def)
qed

text \<open>A window of 300 s with the samples (2 s, 10 W) and (0 s, 20 W), out of order: 30 J;
  with the first sample alone: 3000 J; with none: 0 J.\<close>

theorem computeEnergy_cases_witness:
  "e_energy_j_window (emit_power_window (new_aggregator 300000000)
      \<lparr>ts_start = Fin 0, ts_end = Fin 300000000, site_id = ''s'',
        power_samples = [\<lparr>sample_ts = 2000000, sample_power = Fin 10\<rparr>,
                         \<lparr>sample_ts = 0, sample_power = Fin 20\<rparr>],
        last_ts = Fin 2000000\<rparr>) = Fin 30
   \<and> e_energy_j_window (emit_power_window (new_aggregator 300000000)
      \<lparr>ts_start = Fin 0, ts_end = Fin 300000000, site_id = ''s'',
        power_samples = [\<lparr>sample_ts = 2000000, sample_power = Fin 10\<rparr>],
        last_ts = Fin 2000000\<rparr>) = Fin 3000
   \<and> e_energy_j_window (emit_power_window (new_aggregator 300000000)
      \<lparr>ts_start = Fin 0, ts_end = Fin 300000000, site_id = ''s'',
        power_samples = [], last_ts = Fin 0\<rparr>) = Fin 0"
  using computeEnergy_cases [of
      "\<lparr>ts_start = Fin 0, ts_end = Fin 300000000, site_id = ''s'',
        power_samples = [\<lparr>sample_ts = 2000000, sample_power = Fin 10\<rparr>,
                         \<lparr>sample_ts = 0, sample_power = Fin 20\<rparr>],
        last_ts = Fin 2000000\<rparr>" "new_aggregator 300000000"]
    computeEnergy_cases [of
      "\<lparr>ts_start = Fin 0, ts_end = Fin 300000000, site_id = ''s'',
        power_samples = [\<lparr>sample_ts = 2000000, sample_power = Fin 10\<rparr>],
        last_ts = Fin 2000000\<rparr>" "new_aggregator 300000000"]
    computeEnergy_cases [of
      "\<lparr>ts_start = Fin 0, ts_end = Fin 300000000, site_id = ''s'',
        power_samples = [], last_ts = Fin 0\<rparr>" "new_aggregator 300000000"]
  by (simp add: trapezoid_sum_def new_aggregator_def)

section \<open>The window map under a step\<close>

lemma map_of_Map_set: "map_of (Map_set m k v) = (map_of m)(k \<mapsto> v)"
  by (induction m) (auto simp: fun_eq_iff)



lemma Map_set_twice: "Map_set (Map_set m k a) k b = Map_set m k b"
  by (induction m) auto

lemma Map_set_same: "map_of m k = Some v \<Longrightarrow> Map_set m k v = m"
  by (induction m) (auto simp: prod_eq_iff)

lemma Map_has_iff: "Map_has m k \<longleftrightarrow> map_of m k \<noteq> None"
  by (simp add: Map_has_def map_of_eq_None_iff)

lemma map_of_upsert:
  "map_of (upsert init f k m) = (map_of m)(k \<mapsto> f (case map_of m k of None \<Rightarrow> init k | Some w \<Rightarrow> w))"
  by (simp add: upsert_def map_of_Map_set)


lemma upsert_new: "map_of m k = None \<Longrightarrow> upsert init f k m = Map_set m k (f (init k))"
  by (simp add: upsert_def)

lemma upsert_old: "map_of m k = Some w \<Longrightarrow> upsert init f k m = Map_set m k (f w)"
  by (simp add: upsert_def)






section \<open>The two aggregators as runs\<close>

lemma addPowerRecord_upsert:
  "addPowerRecord agg r =
     agg\<lparr>windows := upsert (power_init (windowSizeUs agg)) (power_step r)
                        (power_key (windowSizeUs agg) r) (windows agg)\<rparr>"
proof -
  let ?k = "power_key (windowSizeUs agg) r"
  have k: "getWindowKey agg (normalizeTimestamp (power_record_ts r)) (power_record_site r) = ?k"
    by (simp add: power_key_def getWindowKey_def windowStart_of_def new_aggregator_def)
  have init: "\<lparr>ts_start = windowStart_of agg (normalizeTimestamp (power_record_ts r)),
       ts_end = windowStart_of agg (normalizeTimestamp (power_record_ts r)) + Fin (windowSizeUs agg),
       site_id = power_record_site r, power_samples = [],
       last_ts = windowStart_of agg (normalizeTimestamp (power_record_ts r))\<rparr>
      = power_init (windowSizeUs agg) ?k"
    by (simp add: power_init_def power_key_def getWindowKey_def windowStart_of_def new_aggregator_def)
  show ?thesis
  proof (cases "map_of (windows agg) ?k")
    case None
    then show ?thesis
      unfolding addPowerRecord_def Let_def k init
      by (simp add: Map_has_iff Map_get_def map_of_Map_set upsert_new Map_set_twice
          power_step_def power_valid_def power_sample_of_def)
  next
    case (Some window)
    then show ?thesis
      unfolding addPowerRecord_def Let_def k init
      by (simp add: Map_has_iff Map_get_def upsert_old Map_set_same
          power_step_def power_valid_def power_sample_of_def)
  qed
qed




lemma addUsageRecord_upsert:
  "addUsageRecord agg r =
     agg\<lparr>windows := upsert (usage_init (windowSizeUs agg)) (usage_step r)
                        (usage_key (windowSizeUs agg) r) (windows agg)\<rparr>"
proof -
  let ?k = "usage_key (windowSizeUs agg) r"
  have k: "getWindowKey agg (usage_record_ts r) (usage_record_site r) = ?k"
    by (simp add: usage_key_def getWindowKey_def windowStart_of_def new_aggregator_def)
  have init: "\<lparr>ts_start = windowStart_of agg (usage_record_ts r),
       ts_end = windowStart_of agg (usage_record_ts r) + Fin (windowSizeUs agg),
       site_id = usage_record_site r, cpu_samples = [], gpu_samples = [], mem_samples = [],
       job_count = 0, resource_seconds = Fin 0\<rparr>
      = usage_init (windowSizeUs agg) ?k"
    by (simp add: usage_init_def usage_key_def getWindowKey_def windowStart_of_def new_aggregator_def)
  show ?thesis
  proof (cases "map_of (windows agg) ?k")
    case None
    then show ?thesis
      unfolding addUsageRecord_def Let_def k init
      by (simp add: Map_has_iff Map_get_def map_of_Map_set upsert_new Map_set_twice
          usage_step_def usage_seconds_def)
  next
    case (Some window)
    then show ?thesis
      unfolding addUsageRecord_def Let_def k init
      by (simp add: Map_has_iff Map_get_def upsert_old usage_step_def usage_seconds_def)
  qed
qed



section \<open>The window key\<close>

text \<open>
  C4 (as amended). The PowerAggregator resolves the unit of a timestamp by its magnitude
  before bucketing: the record goes to the window whose key is computed from the
  timestamp times \<open>1e6\<close> when it is below \<open>1e10\<close>, times \<open>1e3\<close> when it is below \<open>1e13\<close>,
  and unchanged otherwise. The UsageAggregator does not: the record goes to the window
  whose key is computed from the timestamp as it is given, read as microseconds. In both,
  no window of another key changes.
\<close>

theorem window_key_of_record:
  "(let raw = power_record_ts r;
        us = (if raw < 10000000000 then raw * 1000000
              else if raw < 10000000000000 then raw * 1000 else raw);
        k = getWindowKey agg us (power_record_site r)
    in Map_has (windows (addPowerRecord agg r)) k
       \<and> (\<forall>k'. k' \<noteq> k \<longrightarrow>
             Map_get (windows (addPowerRecord agg r)) k' = Map_get (windows agg) k'))
   \<and> (let k = getWindowKey uagg (usage_record_ts u) (usage_record_site u)
      in Map_has (windows (addUsageRecord uagg u)) k
         \<and> (\<forall>k'. k' \<noteq> k \<longrightarrow>
               Map_get (windows (addUsageRecord uagg u)) k' = Map_get (windows uagg) k'))"
proof -
  have pk: "getWindowKey agg (normalizeTimestamp (power_record_ts r)) (power_record_site r)
      = power_key (windowSizeUs agg) r"
    by (simp add: power_key_def getWindowKey_def windowStart_of_def new_aggregator_def)
  have uk: "getWindowKey uagg (usage_record_ts u) (usage_record_site u)
      = usage_key (windowSizeUs uagg) u"
    by (simp add: usage_key_def getWindowKey_def windowStart_of_def new_aggregator_def)
  have norm: "(if power_record_ts r < 10000000000 then power_record_ts r * 1000000
              else if power_record_ts r < 10000000000000 then power_record_ts r * 1000
              else power_record_ts r) = normalizeTimestamp (power_record_ts r)"
    by (simp add: normalizeTimestamp_def)
  show ?thesis
    unfolding Let_def norm pk uk
    by (simp add: addPowerRecord_upsert addUsageRecord_upsert Map_has_iff Map_get_def map_of_upsert)
qed

text \<open>The timestamp 1000 with windows of 300 s: the power record goes to the window that
  starts at 900 s, the usage record to the window that starts at 0.\<close>

theorem window_key_of_record_witness:
  "Map_has (windows (addPowerRecord (new_aggregator 300000000)
        (empty_power_record\<lparr>pr_ts := Some 1000, pr_site_id := Some ''s''\<rparr>)))
      (''s'', Fin 900000000)
   \<and> Map_has (windows (addUsageRecord (new_aggregator 300000000)
        (empty_usage_record\<lparr>ur_start_time := Some 1000, ur_machine_id := Some ''m''\<rparr>)))
      (''m'', Fin 0)"
  using window_key_of_record [of "empty_power_record\<lparr>pr_ts := Some 1000, pr_site_id := Some ''s''\<rparr>"
      "new_aggregator 300000000"
      "new_aggregator 300000000"
      "empty_usage_record\<lparr>ur_start_time := Some 1000, ur_machine_id := Some ''m''\<rparr>"]
  by (simp add: Let_def getWindowKey_def windowStart_of_def new_aggregator_def
      power_record_ts_def power_record_site_def usage_record_ts_def usage_record_site_def
      empty_power_record_def empty_usage_record_def)

text \<open>
  C4 as stated fails for the UsageAggregator at the timestamp 1000: the heuristic reads it
  as seconds, \<open>1e9\<close> microseconds, in the window that starts at \<open>9e8\<close>; the aggregator
  files the record under the window that starts at 0.
\<close>

theorem usage_window_key_counterexample:
  "usage_record_ts (empty_usage_record\<lparr>ur_start_time := Some 1000, ur_machine_id := Some ''m''\<rparr>) = 1000
   \<and> normalizeTimestamp 1000 = 1000000000
   \<and> getWindowKey (new_aggregator 300000000 :: usage_window aggregator) 1000000000 ''m''
       = (''m'', Fin 900000000)
   \<and> map fst (windows (addUsageRecord (new_aggregator 300000000)
        (empty_usage_record\<lparr>ur_start_time := Some 1000, ur_machine_id := Some ''m''\<rparr>)))
       = [(''m'', Fin 0)]"
  by (simp add: addUsageRecord_def new_aggregator_def getWindowKey_def windowStart_of_def
      Map_has_def Map_get_def usage_record_ts_def usage_record_site_def empty_usage_record_def
      normalizeTimestamp_def Let_def)

section \<open>Order of arrival\<close>














section \<open>The range of the emitted utilisation\<close>

text \<open>The clamp \<open>Math.min(1, Math.max(0, x))\<close> brings every number into \<open>[0,1]\<close> but
  \<open>NaN\<close>, which it returns.\<close>

lemma clamp01_range: "x \<noteq> NaN \<Longrightarrow> Fin 0 \<le> clamp01 x \<and> clamp01 x \<le> Fin 1"
  by (cases x) (auto simp: clamp01_def Math_min_def Math_max_def)

lemma clamp01_NaN: "clamp01 NaN = NaN"
  by (simp add: clamp01_def Math_min_def Math_max_def)

text \<open>
  C6 fails on the code. A usage record whose \<open>cpu_util\<close> is a string that is not a
  number, as \<open>{start_time: 0, machine_id: "m", cpu_util: "n/a"}\<close>, is not dropped:
  \<open>addUsageRecord\<close> pushes \<open>Number("n/a")\<close>, which is \<open>NaN\<close>, the mean of the window
  is \<open>NaN\<close>, the clamp returns it, and the emitted \<open>cpu_util\<close> is \<open>NaN\<close>, outside
  \<open>[0,1]\<close>.
\<close>

theorem usage_nonnumeric_cpu_util:
  "map e_cpu_util (feed_usage 300000000
      [empty_usage_record\<lparr>ur_start_time := Some 0, ur_machine_id := Some ''m'',
                            ur_cpu_util := Other NaN\<rparr>]) = [NaN]
   \<and> \<not> (Fin 0 \<le> (NaN::jsnum) \<and> (NaN::jsnum) \<le> Fin 1)"
  by (simp add: feed_usage_def emit_usage_def emit_usage_window_def addUsageRecord_def
      new_aggregator_def getWindowKey_def windowStart_of_def Map_has_def Map_get_def
      usage_record_ts_def usage_record_site_def usage_record_cpuUtil_def usage_record_memUtil_def
      empty_usage_record_def coalesce_def push_reading_def mean_samples_def clamp01_def
      Math_min_def Math_max_def Let_def)

text \<open>The PowerAggregator does drop such a value (\<open>!isNaN(powerW)\<close>): the window of a
  record whose \<open>power_w\<close> is \<open>"n/a"\<close> has no sample.\<close>

lemma power_nonnumeric_dropped:
  "map e_sample_count (feed_power 300000000
      [empty_power_record\<lparr>pr_ts := Some 0, pr_site_id := Some ''m'',
                            pr_power_w := Other NaN\<rparr>]) = [0]"
  by (simp add: feed_power_def emit_power_def emit_power_window_def addPowerRecord_def
      new_aggregator_def getWindowKey_def windowStart_of_def Map_has_def Map_get_def
      power_record_ts_def power_record_site_def power_record_powerW_def normalizeTimestamp_def
      empty_power_record_def coalesce_def isNaN_def Let_def)

end
